theory Spec2Isabelle
  imports Main "HOL-Library.Sublist"
begin

section \<open>The browser state the scripts run against\<close>

text \<open>
  The repository holds several revisions of one page script. Each revision is an
  independent script; a page loads exactly one of them. All of them act on the same
  few browser facilities: element lookup by selector, attributes, class lists, inline
  styles, the focused element, listeners, animation frames and timers.

  An element reference is the position of the element in the document tree: the list
  of child indices that leads from the root element to it. Two references are the same
  JavaScript object exactly when the positions are equal, and \<open>a.contains(b)\<close> holds
  exactly when \<open>a\<close> is a prefix of \<open>b\<close>. None of the modelled navigation code
  inserts or removes elements, so positions are stable while it runs.
\<close>

type_synonym elem = "nat list"

definition contains :: "elem \<Rightarrow> elem \<Rightarrow> bool" where
  "contains a b = prefix a b"

text \<open>
  \<open>select d s\<close> lists, in document order, the elements that match the selector
  \<open>s\<close>; matching itself is the browser's work. \<open>attributes\<close>, \<open>classes\<close> and
  \<open>styles\<close> are the mutable stores of the elements, keyed by element reference, so
  two references to one element see each other's writes.

  Whether an element can take the focus is decided by the browser from the markup and
  the style sheet as they apply at that moment: a disabled button cannot, nor can an
  element that is not rendered. The style sheet is not part of the scripts, so the rule
  is a component of the page: \<open>takesFocus d A C S k e\<close> says whether \<open>e\<close> can take
  the focus when the attributes are \<open>A\<close>, the classes \<open>C\<close>, the inline styles
  \<open>S\<close> and the window is \<open>k\<close> pixels wide.
\<close>

record dom =
  select :: "string \<Rightarrow> elem list"
  body :: elem
  attributes :: "elem \<Rightarrow> string \<Rightarrow> string option"
  classes :: "elem \<Rightarrow> string set"
  styles :: "elem \<Rightarrow> string \<Rightarrow> string"
  activeElement :: "elem option"
  innerWidth :: int
  prefersReducedMotion :: bool
  takesFocus :: "(elem \<Rightarrow> string \<Rightarrow> string option) \<Rightarrow> (elem \<Rightarrow> string set)
                   \<Rightarrow> (elem \<Rightarrow> string \<Rightarrow> string) \<Rightarrow> int \<Rightarrow> elem \<Rightarrow> bool"

definition querySelector :: "string \<Rightarrow> 'a dom_scheme \<Rightarrow> elem option" where
  "querySelector s d = (case select d s of [] \<Rightarrow> None | e # _ \<Rightarrow> Some e)"

definition querySelectorAll :: "string \<Rightarrow> 'a dom_scheme \<Rightarrow> elem list" where
  "querySelectorAll s d = select d s"

text \<open>\<open>root.querySelectorAll(s)\<close>: the matching descendants of \<open>root\<close>, never \<open>root\<close> itself.\<close>

definition querySelectorAll_in :: "elem \<Rightarrow> string \<Rightarrow> 'a dom_scheme \<Rightarrow> elem list" where
  "querySelectorAll_in root s d = filter (strict_prefix root) (select d s)"

definition getAttribute :: "elem \<Rightarrow> string \<Rightarrow> 'a dom_scheme \<Rightarrow> string option" where
  "getAttribute e a d = attributes d e a"

definition setAttribute :: "elem \<Rightarrow> string \<Rightarrow> string \<Rightarrow> 'a dom_scheme \<Rightarrow> 'a dom_scheme" where
  "setAttribute e a v d = d\<lparr>attributes := (attributes d)(e := (attributes d e)(a \<mapsto> v))\<rparr>"

definition classList_contains :: "elem \<Rightarrow> string \<Rightarrow> 'a dom_scheme \<Rightarrow> bool" where
  "classList_contains e c d = (c \<in> classes d e)"

definition classList_add :: "elem \<Rightarrow> string \<Rightarrow> 'a dom_scheme \<Rightarrow> 'a dom_scheme" where
  "classList_add e c d = d\<lparr>classes := (classes d)(e := insert c (classes d e))\<rparr>"

definition classList_remove :: "elem \<Rightarrow> string \<Rightarrow> 'a dom_scheme \<Rightarrow> 'a dom_scheme" where
  "classList_remove e c d = d\<lparr>classes := (classes d)(e := classes d e - {c})\<rparr>"

text \<open>\<open>classList.toggle(c)\<close> returns whether the class is present afterwards.\<close>

definition classList_toggle :: "elem \<Rightarrow> string \<Rightarrow> 'a dom_scheme \<Rightarrow> bool \<times> 'a dom_scheme" where
  "classList_toggle e c d =
     (if classList_contains e c d then (False, classList_remove e c d)
      else (True, classList_add e c d))"

definition setStyle :: "elem \<Rightarrow> string \<Rightarrow> string \<Rightarrow> 'a dom_scheme \<Rightarrow> 'a dom_scheme" where
  "setStyle e p v d = d\<lparr>styles := (styles d)(e := (styles d e)(p := v))\<rparr>"

text \<open>
  \<open>e.focus()\<close> makes \<open>e\<close> the active element if \<open>e\<close> can take the focus in the
  present state of the document, and does nothing otherwise.
\<close>

definition can_focus :: "elem \<Rightarrow> 'a dom_scheme \<Rightarrow> bool" where
  "can_focus e d = takesFocus d (attributes d) (classes d) (styles d) (innerWidth d) e"

definition focus :: "elem \<Rightarrow> 'a dom_scheme \<Rightarrow> 'a dom_scheme" where
  "focus e d = (if can_focus e d then d\<lparr>activeElement := Some e\<rparr> else d)"

text \<open>\<open>xs[i]\<close> on a NodeList: \<open>undefined\<close> outside the range, also for \<open>i = -1\<close>.\<close>

definition item :: "'a list \<Rightarrow> int \<Rightarrow> 'a option" where
  "item xs i = (if 0 \<le> i \<and> i < int (length xs) then Some (xs ! nat i) else None)"

text \<open>\<open>String(b)\<close> for a boolean.\<close>

definition String :: "bool \<Rightarrow> string" where
  "String b = (if b then ''true'' else ''false'')"

subsection \<open>Exceptions, events and listeners\<close>

text \<open>
  A call either returns or throws; the mutations made before a throw stay, so both
  outcomes carry the state.
\<close>

datatype js_error = TypeError | NetworkError | HttpError | NoModificationAllowedError

datatype 'a outcome = Returns 'a | Throws js_error 'a

fun andThen :: "'a outcome \<Rightarrow> ('a \<Rightarrow> 'a outcome) \<Rightarrow> 'a outcome" where
  "andThen (Returns s) f = f s"
| "andThen (Throws e s) f = Throws e s"

fun state_of :: "'a outcome \<Rightarrow> 'a" where
  "state_of (Returns s) = s"
| "state_of (Throws e s) = s"

fun returns :: "'a outcome \<Rightarrow> bool" where
  "returns (Returns s) = True"
| "returns (Throws e s) = False"

datatype event_target = Node elem | Document | Window

record event =
  etype :: string
  target :: event_target
  key :: string
  shiftKey :: bool
  defaultPrevented :: bool

definition preventDefault :: "event \<Rightarrow> event" where
  "preventDefault ev = ev\<lparr>defaultPrevented := True\<rparr>"

text \<open>\<open>a.contains(e.target)\<close>; the target of the modelled click events is an element.\<close>

definition contains_target :: "elem \<Rightarrow> event \<Rightarrow> bool" where
  "contains_target a ev = (case target ev of Node t \<Rightarrow> contains a t | _ \<Rightarrow> False)"

text \<open>
  The listeners the modelled revisions register, one constructor for each function or
  closure passed to \<open>addEventListener\<close>, and the callbacks they hand to
  \<open>requestAnimationFrame\<close> and \<open>setTimeout\<close>.
\<close>

datatype listener =
    ToggleMenu | HandleKeydown | OutsideClick | LinkClick | HandleResize
  | Toggle_v8 | HandleKeydown_v8 | DebouncedOutsideClick_v8 | LinkClick_v8 | DebouncedResize_v8
  | ToggleMenu_pro | HandleKeydown_pro
  | ToggleMenu_v2
  | NavToggleClick

datatype frame_callback = FocusFirstFocusable | FocusFirst_v8

text \<open>
  The world of a page: the document, the fields of the \<open>mobileNav\<close> object, the
  registered listeners in registration order, the queued animation-frame callbacks, the
  pending call of each debounced function (its arguments, if one is pending) and the
  exceptions that escaped a listener (the browser reports them and goes on).
\<close>

record world = dom +
  isOpen :: bool
  toggleButton :: "elem option"
  navContainer :: "elem option"
  elBody :: "elem option"
  focusableElements :: "elem list"
  firstFocusable :: "elem option"
  lastFocusable :: "elem option"
  listeners :: "(event_target \<times> string \<times> listener) list"
  frames :: "frame_callback list"
  pendingOutsideClick :: "event option"
  pendingResize :: bool
  uncaught :: "js_error list"

definition addEventListener :: "event_target \<Rightarrow> string \<Rightarrow> listener \<Rightarrow> world \<Rightarrow> world" where
  "addEventListener tg ty l w = w\<lparr>listeners := listeners w @ [(tg, ty, l)]\<rparr>"

definition requestAnimationFrame :: "frame_callback \<Rightarrow> world \<Rightarrow> world" where
  "requestAnimationFrame cb w = w\<lparr>frames := frames w @ [cb]\<rparr>"

text \<open>
  The world a script starts in: the object literal's initial fields
  (\<open>elements: {}\<close>, \<open>isOpen: false\<close>), nothing registered, nothing pending.
\<close>

definition fresh :: "dom \<Rightarrow> world" where
  "fresh d = dom.extend d (world.fields False None None None [] None None [] [] None False [])"


text \<open>\<open>a === b\<close> for two references, each possibly \<open>null\<close> or \<open>undefined\<close>
  (\<open>document.activeElement\<close> is an element or \<open>null\<close>, an unset field is
  \<open>undefined\<close>, and \<open>null === undefined\<close> is false).\<close>

definition same_object :: "elem option \<Rightarrow> elem option \<Rightarrow> bool" where
  "same_object a b = (case (a, b) of (Some x, Some y) \<Rightarrow> x = y | _ \<Rightarrow> False)"

fun keep_event :: "event \<Rightarrow> world outcome \<Rightarrow> (event \<times> world) outcome" where
  "keep_event ev (Returns w) = Returns (ev, w)"
| "keep_event ev (Throws e w) = Throws e (ev, w)"

section \<open>Version 6.0 (Premium 3D Implementation): \<open>mobileNav\<close>\<close>

definition trapFocus :: "world \<Rightarrow> world outcome" where
  "trapFocus w = Returns w"

definition openMenu :: "world \<Rightarrow> world outcome" where
  "openMenu w =
     (let w1 = w\<lparr>isOpen := True\<rparr> in
      case elBody w1 of None \<Rightarrow> Throws TypeError w1 | Some b \<Rightarrow>
      (let w2 = classList_add b ''mobile-nav-open'' w1 in
       case toggleButton w2 of None \<Rightarrow> Throws TypeError w2 | Some t \<Rightarrow>
       (let w3 = setAttribute t ''aria-expanded'' ''true'' w2 in
        case navContainer w3 of None \<Rightarrow> Throws TypeError w3 | Some n \<Rightarrow>
        (let w4 = setAttribute n ''aria-hidden'' ''false'' w3;
             w5 = requestAnimationFrame FocusFirstFocusable w4
         in trapFocus w5))))"

text \<open>The callback \<open>openMenu\<close> queues: \<open>if (this.firstFocusable) this.firstFocusable.focus()\<close>.\<close>

definition focusFirstFocusable :: "world \<Rightarrow> world outcome" where
  "focusFirstFocusable w =
     (case firstFocusable w of None \<Rightarrow> Returns w | Some f \<Rightarrow> Returns (focus f w))"

definition closeMenu :: "world \<Rightarrow> world outcome" where
  "closeMenu w =
     (let w1 = w\<lparr>isOpen := False\<rparr> in
      case elBody w1 of None \<Rightarrow> Throws TypeError w1 | Some b \<Rightarrow>
      (let w2 = classList_remove b ''mobile-nav-open'' w1 in
       case toggleButton w2 of None \<Rightarrow> Throws TypeError w2 | Some t \<Rightarrow>
       (let w3 = setAttribute t ''aria-expanded'' ''false'' w2 in
        case navContainer w3 of None \<Rightarrow> Throws TypeError w3 | Some n \<Rightarrow>
        (let w4 = setAttribute n ''aria-hidden'' ''true'' w3
         in Returns (focus t w4)))))"

definition toggleMenu :: "world \<Rightarrow> world outcome" where
  "toggleMenu w = (if isOpen w then closeMenu w else openMenu w)"

definition handleTabNavigation :: "event \<times> world \<Rightarrow> (event \<times> world) outcome" where
  "handleTabNavigation s =
     (case s of (ev, w) \<Rightarrow>
      if shiftKey ev then
        (if same_object (activeElement w) (firstFocusable w) then
           (case lastFocusable w of None \<Rightarrow> Throws TypeError (ev, w)
            | Some l \<Rightarrow> Returns (preventDefault ev, focus l w))
         else Returns (ev, w))
      else
        (if same_object (activeElement w) (lastFocusable w) then
           (case firstFocusable w of None \<Rightarrow> Throws TypeError (ev, w)
            | Some f \<Rightarrow> Returns (preventDefault ev, focus f w))
         else Returns (ev, w)))"

definition handleKeydown :: "event \<times> world \<Rightarrow> (event \<times> world) outcome" where
  "handleKeydown s =
     (case s of (ev, w) \<Rightarrow>
      if \<not> isOpen w then Returns (ev, w)
      else if key ev = ''Escape'' then keep_event ev (closeMenu w)
      else if key ev = ''Tab'' then handleTabNavigation (ev, w)
      else Returns (ev, w))"

text \<open>The closure on \<open>document\<close> that closes the menu on a click outside.\<close>

definition outsideClick :: "event \<times> world \<Rightarrow> (event \<times> world) outcome" where
  "outsideClick s =
     (case s of (ev, w) \<Rightarrow>
      if \<not> isOpen w then Returns (ev, w)
      else
        (case navContainer w of None \<Rightarrow> Throws TypeError (ev, w)
         | Some n \<Rightarrow>
             if contains_target n ev then Returns (ev, w)
             else
               (case toggleButton w of None \<Rightarrow> Throws TypeError (ev, w)
                | Some t \<Rightarrow>
                    if contains_target t ev then Returns (ev, w)
                    else keep_event ev (closeMenu w))))"

text \<open>The closure on every focusable element of the panel.\<close>

definition linkClick :: "event \<times> world \<Rightarrow> (event \<times> world) outcome" where
  "linkClick s =
     (case s of (ev, w) \<Rightarrow> if isOpen w then keep_event ev (closeMenu w) else Returns (ev, w))"

definition handleResize :: "world \<Rightarrow> world outcome" where
  "handleResize w = (if innerWidth w > 768 \<and> isOpen w then closeMenu w else Returns w)"

definition bindEvents :: "world \<Rightarrow> world outcome" where
  "bindEvents w =
     (case toggleButton w of None \<Rightarrow> Throws TypeError w | Some t \<Rightarrow>
      (let w1 = addEventListener (Node t) ''click'' ToggleMenu w;
           w2 = addEventListener Document ''keydown'' HandleKeydown w1;
           w3 = addEventListener Document ''click'' OutsideClick w2;
           w4 = foldl (\<lambda>v link. addEventListener (Node link) ''click'' LinkClick v)
                  w3 (focusableElements w3);
           w5 = addEventListener Window ''resize'' HandleResize w4
       in Returns w5))"

definition setupAccessibility :: "world \<Rightarrow> world outcome" where
  "setupAccessibility w =
     (case toggleButton w of None \<Rightarrow> Throws TypeError w | Some t \<Rightarrow>
      (let w1 = setAttribute t ''aria-expanded'' ''false'' w;
           w2 = setAttribute t ''aria-controls'' ''nav-links'' w1
       in case navContainer w2 of None \<Rightarrow> Throws TypeError w2 | Some n \<Rightarrow>
          Returns (setAttribute n ''aria-hidden'' ''true'' w2)))"

definition focusable_selector :: string where
  \<open>focusable_selector = ''a[href], button:not([disabled]), [tabindex]:not([tabindex="-1"])''\<close>

definition init :: "world \<Rightarrow> world outcome" where
  "init w =
     (let w1 = w\<lparr>toggleButton := querySelector ''.mobile-menu-toggle'' w,
                  navContainer := querySelector ''#nav-links'' w,
                  elBody := Some (body w)\<rparr> in
      case (toggleButton w1, navContainer w1) of
        (Some t, Some n) \<Rightarrow>
          (let fs = querySelectorAll_in n focusable_selector w1;
               w2 = w1\<lparr>focusableElements := fs\<rparr>;
               w3 = w2\<lparr>firstFocusable := item (focusableElements w2) 0\<rparr>;
               w4 = w3\<lparr>lastFocusable :=
                         item (focusableElements w3) (int (length (focusableElements w3)) - 1)\<rparr>
           in andThen (bindEvents w4) setupAccessibility)
      | _ \<Rightarrow> Returns w1)"

section \<open>Version 8.0 (Stabilized and Simplified): \<open>mobileNav\<close>\<close>

text \<open>
  The fields \<open>elements.toggle\<close>, \<open>elements.nav\<close>, \<open>elements.body\<close> and
  \<open>elements.focusable\<close> are kept in \<open>toggleButton\<close>, \<open>navContainer\<close>, \<open>elBody\<close> and
  \<open>focusableElements\<close>. \<open>elements.focusable\<close> is \<open>null\<close> when the panel is missing;
  it is only read through \<open>?.\<close>, which treats \<open>null\<close> as a list without elements, so
  \<open>null\<close> is kept as the empty list.

  \<open>debounce(f, wait)\<close> returns a function that cancels the pending call of \<open>f\<close>, if
  any, and schedules a new one with the present arguments. The pending call is the
  field \<open>pendingOutsideClick\<close> or \<open>pendingResize\<close>; it runs when its timer fires.
\<close>

definition cacheElements_v8 :: "world \<Rightarrow> world" where
  "cacheElements_v8 w =
     (let w1 = w\<lparr>toggleButton := querySelector ''.mobile-menu-toggle'' w,
                  navContainer := querySelector ''#nav-links'' w,
                  elBody := Some (body w),
                  focusableElements := []\<rparr>
      in case navContainer w1 of None \<Rightarrow> w1
         | Some n \<Rightarrow> w1\<lparr>focusableElements :=
                          querySelectorAll_in n ''a[href], button:not([disabled])'' w1\<rparr>)"

definition open_v8 :: "world \<Rightarrow> world outcome" where
  "open_v8 w =
     (let w1 = w\<lparr>isOpen := True\<rparr> in
      case elBody w1 of None \<Rightarrow> Throws TypeError w1 | Some b \<Rightarrow>
      (let w2 = classList_add b ''mobile-nav-open'' w1 in
       case toggleButton w2 of None \<Rightarrow> Throws TypeError w2 | Some t \<Rightarrow>
       (let w3 = setAttribute t ''aria-expanded'' ''true'' w2
        in Returns (requestAnimationFrame FocusFirst_v8 w3))))"

text \<open>The queued callback: \<open>this.elements.focusable?.[0]?.focus()\<close>.\<close>

definition focusFirst_v8 :: "world \<Rightarrow> world outcome" where
  "focusFirst_v8 w =
     (case item (focusableElements w) 0 of None \<Rightarrow> Returns w | Some f \<Rightarrow> Returns (focus f w))"

definition close_v8 :: "world \<Rightarrow> world outcome" where
  "close_v8 w =
     (let w1 = w\<lparr>isOpen := False\<rparr> in
      case elBody w1 of None \<Rightarrow> Throws TypeError w1 | Some b \<Rightarrow>
      (let w2 = classList_remove b ''mobile-nav-open'' w1 in
       case toggleButton w2 of None \<Rightarrow> Throws TypeError w2 | Some t \<Rightarrow>
       (let w3 = setAttribute t ''aria-expanded'' ''false'' w2
        in Returns (focus t w3))))"

definition toggle_v8 :: "world \<Rightarrow> world outcome" where
  "toggle_v8 w = (if isOpen w then close_v8 w else open_v8 w)"

definition handleKeydown_v8 :: "event \<times> world \<Rightarrow> (event \<times> world) outcome" where
  "handleKeydown_v8 s =
     (case s of (ev, w) \<Rightarrow>
      if \<not> isOpen w \<or> key ev \<noteq> ''Escape'' then Returns (ev, w)
      else keep_event ev (close_v8 w))"

definition handleOutsideClick_v8 :: "event \<times> world \<Rightarrow> (event \<times> world) outcome" where
  "handleOutsideClick_v8 s =
     (case s of (ev, w) \<Rightarrow>
      if \<not> isOpen w then Returns (ev, w)
      else
        (case navContainer w of None \<Rightarrow> Throws TypeError (ev, w)
         | Some n \<Rightarrow>
             if contains_target n ev then Returns (ev, w)
             else
               (case toggleButton w of None \<Rightarrow> Throws TypeError (ev, w)
                | Some t \<Rightarrow>
                    if contains_target t ev then Returns (ev, w)
                    else keep_event ev (close_v8 w))))"

definition linkClick_v8 :: "event \<times> world \<Rightarrow> (event \<times> world) outcome" where
  "linkClick_v8 s =
     (case s of (ev, w) \<Rightarrow> if isOpen w then keep_event ev (close_v8 w) else Returns (ev, w))"

text \<open>The function the resize listener debounces.\<close>

definition resizeCheck_v8 :: "world \<Rightarrow> world outcome" where
  "resizeCheck_v8 w = (if innerWidth w > 768 \<and> isOpen w then close_v8 w else Returns w)"

definition debouncedOutsideClick_v8 :: "event \<times> world \<Rightarrow> (event \<times> world) outcome" where
  "debouncedOutsideClick_v8 s =
     (case s of (ev, w) \<Rightarrow> Returns (ev, w\<lparr>pendingOutsideClick := Some ev\<rparr>))"

definition debouncedResize_v8 :: "event \<times> world \<Rightarrow> (event \<times> world) outcome" where
  "debouncedResize_v8 s = (case s of (ev, w) \<Rightarrow> Returns (ev, w\<lparr>pendingResize := True\<rparr>))"

definition bindEvents_v8 :: "world \<Rightarrow> world outcome" where
  "bindEvents_v8 w =
     (case toggleButton w of None \<Rightarrow> Throws TypeError w | Some t \<Rightarrow>
      (let w1 = addEventListener (Node t) ''click'' Toggle_v8 w;
           w2 = addEventListener Document ''keydown'' HandleKeydown_v8 w1;
           w3 = addEventListener Document ''click'' DebouncedOutsideClick_v8 w2;
           w4 = foldl (\<lambda>v link. addEventListener (Node link) ''click'' LinkClick_v8 v)
                  w3 (focusableElements w3);
           w5 = addEventListener Window ''resize'' DebouncedResize_v8 w4
       in Returns w5))"

definition setupAccessibility_v8 :: "world \<Rightarrow> world outcome" where
  "setupAccessibility_v8 w =
     (case toggleButton w of None \<Rightarrow> Throws TypeError w | Some t \<Rightarrow>
      (let w1 = setAttribute t ''aria-expanded'' ''false'' w
       in Returns (setAttribute t ''aria-controls'' ''nav-links'' w1)))"

definition init_v8 :: "world \<Rightarrow> world outcome" where
  "init_v8 w =
     (let w1 = cacheElements_v8 w in
      if toggleButton w1 = None \<or> navContainer w1 = None then Returns w1
      else andThen (bindEvents_v8 w1) setupAccessibility_v8)"


section \<open>Professional Edition 1.0: \<open>mobileNav\<close>\<close>

text \<open>
  This revision has no \<open>isOpen\<close> field: whether the panel is open is the class
  \<open>mobile-nav-open\<close> of \<open>document.body\<close>, read back at each event.
  \<open>navLinksContainer\<close> is kept in \<open>navContainer\<close>.
\<close>

definition toggleMenu_pro :: "world \<Rightarrow> world outcome" where
  "toggleMenu_pro w =
     (case classList_toggle (body w) ''mobile-nav-open'' w of (isExpanded, w1) \<Rightarrow>
      (case toggleButton w1 of None \<Rightarrow> Throws TypeError w1
       | Some t \<Rightarrow>
          (let w2 = setAttribute t ''aria-expanded'' (String isExpanded) w1;
               w3 = setStyle (body w2) ''overflow'' (if isExpanded then ''hidden'' else []) w2
           in if isExpanded then
                (case firstFocusable w3 of None \<Rightarrow> Throws TypeError w3
                 | Some f \<Rightarrow> Returns (focus f w3))
              else Returns w3)))"

definition handleKeydown_pro :: "event \<times> world \<Rightarrow> (event \<times> world) outcome" where
  "handleKeydown_pro s =
     (case s of (ev, w) \<Rightarrow>
      if \<not> classList_contains (body w) ''mobile-nav-open'' w then Returns (ev, w)
      else andThen
        (if key ev = ''Escape'' then keep_event ev (toggleMenu_pro w) else Returns (ev, w))
        (\<lambda>(ev1, w1).
           if key ev1 = ''Tab'' then
             (if shiftKey ev1 then
                (if same_object (activeElement w1) (firstFocusable w1) then
                   (case lastFocusable w1 of None \<Rightarrow> Throws TypeError (ev1, w1)
                    | Some l \<Rightarrow> Returns (preventDefault ev1, focus l w1))
                 else Returns (ev1, w1))
              else
                (if same_object (activeElement w1) (lastFocusable w1) then
                   (case firstFocusable w1 of None \<Rightarrow> Throws TypeError (ev1, w1)
                    | Some f \<Rightarrow> Returns (preventDefault ev1, focus f w1))
                 else Returns (ev1, w1)))
           else Returns (ev1, w1)))"

definition init_pro :: "world \<Rightarrow> world outcome" where
  "init_pro w =
     (let w1 = w\<lparr>toggleButton := querySelector ''.mobile-menu-toggle'' w\<rparr>;
          w2 = w1\<lparr>navContainer := querySelector ''#nav-links'' w1\<rparr> in
      case (toggleButton w2, navContainer w2) of
        (Some t, Some n) \<Rightarrow>
          (let w3 = w2\<lparr>focusableElements := querySelectorAll_in n ''a[href], button'' w2\<rparr>;
               w4 = w3\<lparr>firstFocusable := item (focusableElements w3) 0\<rparr>;
               w5 = w4\<lparr>lastFocusable :=
                         item (focusableElements w4) (int (length (focusableElements w4)) - 1)\<rparr>;
               w6 = addEventListener (Node t) ''click'' ToggleMenu_pro w5
           in Returns (addEventListener Document ''keydown'' HandleKeydown_pro w6))
      | _ \<Rightarrow> Returns w2)"

section \<open>Version 2.0 (Digital Premier Blueprint): \<open>mobileNav\<close>\<close>

definition toggleMenu_v2 :: "world \<Rightarrow> world outcome" where
  "toggleMenu_v2 w =
     (case classList_toggle (body w) ''mobile-nav-open'' w of (isExpanded, w1) \<Rightarrow>
      (case toggleButton w1 of None \<Rightarrow> Throws TypeError w1
       | Some t \<Rightarrow> Returns (setAttribute t ''aria-expanded'' (String isExpanded) w1)))"

definition init_v2 :: "world \<Rightarrow> world outcome" where
  "init_v2 w =
     (let w1 = w\<lparr>toggleButton := querySelector ''.mobile-menu-toggle'' w\<rparr>;
          w2 = w1\<lparr>navContainer := querySelector ''#nav-links'' w1\<rparr> in
      case (toggleButton w2, navContainer w2) of
        (Some t, Some n) \<Rightarrow>
          (let w3 = w2\<lparr>focusableElements := querySelectorAll_in n ''a[href], button'' w2\<rparr>;
               w4 = w3\<lparr>firstFocusable := item (focusableElements w3) 0\<rparr>;
               w5 = w4\<lparr>lastFocusable :=
                         item (focusableElements w4) (int (length (focusableElements w4)) - 1)\<rparr>
           in Returns (addEventListener (Node t) ''click'' ToggleMenu_v2 w5))
      | _ \<Rightarrow> Returns w2)"

section \<open>The script built from functions: \<open>initMobileNav\<close>\<close>

text \<open>
  The start-up handler of this revision calls \<open>initBackToTop\<close>, \<open>initMobileNav\<close>,
  \<open>initScrollAnimations\<close> and \<open>initHeroCanvas\<close>. \<open>initBackToTop\<close>, which runs first,
  appends a new button to the body and registers a scroll listener on the window and a
  click listener on that button; the button has an id and no class, so it matches neither
  selector of \<open>initMobileNav\<close>, and a click on the trigger does not pass through it.
  The page is the document as \<open>initMobileNav\<close> finds it. The script of version 9.1,
  which follows this one in the same source file under a header of its own, is another
  revision and is not loaded with it.

  The navigation has no object and no \<open>isOpen\<close>: the click closure captures the
  constants \<open>toggle\<close>, \<open>nav\<close> and \<open>body\<close>, kept here in \<open>toggleButton\<close>,
  \<open>navContainer\<close> and \<open>elBody\<close>. \<open>setAttribute\<close> converts the boolean it is given
  to a string.
\<close>

definition navToggleClick :: "world \<Rightarrow> world outcome" where
  "navToggleClick w =
     (case toggleButton w of None \<Rightarrow> Throws TypeError w | Some t \<Rightarrow>
      (let isExpanded = (getAttribute t ''aria-expanded'' w = Some ''true'');
           w1 = setAttribute t ''aria-expanded'' (String (\<not> isExpanded)) w
       in case navContainer w1 of None \<Rightarrow> Throws TypeError w1 | Some n \<Rightarrow>
          (let w2 = snd (classList_toggle n ''active'' w1)
           in case elBody w2 of None \<Rightarrow> Throws TypeError w2
              | Some b \<Rightarrow> Returns (snd (classList_toggle b ''mobile-nav-open'' w2)))))"


section \<open>Event dispatch\<close>

fun liftw :: "(world \<Rightarrow> world outcome) \<Rightarrow> event \<times> world \<Rightarrow> (event \<times> world) outcome" where
  "liftw f (ev, w) = keep_event ev (f w)"

fun invoke :: "listener \<Rightarrow> event \<times> world \<Rightarrow> (event \<times> world) outcome" where
  "invoke ToggleMenu s = liftw toggleMenu s"
| "invoke HandleKeydown s = handleKeydown s"
| "invoke OutsideClick s = outsideClick s"
| "invoke LinkClick s = linkClick s"
| "invoke HandleResize s = liftw handleResize s"
| "invoke Toggle_v8 s = liftw toggle_v8 s"
| "invoke HandleKeydown_v8 s = handleKeydown_v8 s"
| "invoke DebouncedOutsideClick_v8 s = debouncedOutsideClick_v8 s"
| "invoke LinkClick_v8 s = linkClick_v8 s"
| "invoke DebouncedResize_v8 s = debouncedResize_v8 s"
| "invoke ToggleMenu_pro s = liftw toggleMenu_pro s"
| "invoke HandleKeydown_pro s = handleKeydown_pro s"
| "invoke ToggleMenu_v2 s = liftw toggleMenu_v2 s"
| "invoke NavToggleClick s = liftw navToggleClick s"

fun callback :: "frame_callback \<Rightarrow> world \<Rightarrow> world outcome" where
  "callback FocusFirstFocusable w = focusFirstFocusable w"
| "callback FocusFirst_v8 w = focusFirst_v8 w"

text \<open>
  An exception that escapes a listener or a callback is reported by the browser; the
  mutations made so far stay and the remaining listeners still run.
\<close>

fun report :: "world outcome \<Rightarrow> world" where
  "report (Returns w) = w"
| "report (Throws e w) = w\<lparr>uncaught := uncaught w @ [e]\<rparr>"

fun report_ev :: "(event \<times> world) outcome \<Rightarrow> event \<times> world" where
  "report_ev (Returns s) = s"
| "report_ev (Throws e (ev, w)) = (ev, w\<lparr>uncaught := uncaught w @ [e]\<rparr>)"

text \<open>
  An event visits its target, then the ancestors of the target from the parent up to the
  root, then the document and the window. No modelled listener is a capturing one and
  none stops the propagation.
\<close>

fun propagation_path :: "event_target \<Rightarrow> event_target list" where
  "propagation_path (Node t) = map Node (rev (prefixes t)) @ [Document, Window]"
| "propagation_path Document = [Document, Window]"
| "propagation_path Window = [Window]"

definition listeners_on :: "event_target \<Rightarrow> string \<Rightarrow> world \<Rightarrow> listener list" where
  "listeners_on tg ty w =
     map (\<lambda>r. snd (snd r)) (filter (\<lambda>r. fst r = tg \<and> fst (snd r) = ty) (listeners w))"

definition dispatchEvent :: "event \<Rightarrow> world \<Rightarrow> event \<times> world" where
  "dispatchEvent ev w =
     foldl (\<lambda>s l. report_ev (invoke l s)) (ev, w)
       (concat (map (\<lambda>tg. listeners_on tg (etype ev) w) (propagation_path (target ev))))"

definition click_event :: "elem \<Rightarrow> event" where
  "click_event t =
     \<lparr>etype = ''click'', target = Node t, key = [], shiftKey = False, defaultPrevented = False\<rparr>"

text \<open>A key event goes to the focused element, or to the body when nothing has focus.\<close>

definition keydown_event :: "string \<Rightarrow> bool \<Rightarrow> world \<Rightarrow> event" where
  "keydown_event k shift w =
     \<lparr>etype = ''keydown'',
      target = Node (case activeElement w of None \<Rightarrow> body w | Some a \<Rightarrow> a),
      key = k, shiftKey = shift, defaultPrevented = False\<rparr>"

definition resize_event :: event where
  "resize_event =
     \<lparr>etype = ''resize'', target = Window, key = [], shiftKey = False, defaultPrevented = False\<rparr>"

text \<open>
  What can happen to a page after its script has started: a click on an element, a key
  press, a resize of the window to a new inner width, a paint frame (the queued
  animation-frame callbacks run), and the expiry of the timer of a debounced call.
\<close>

datatype input =
    Click elem | KeyDown string bool | Resize int | Frame
  | OutsideClickTimer | ResizeTimer

fun step :: "input \<Rightarrow> world \<Rightarrow> world" where
  "step (Click t) w = snd (dispatchEvent (click_event t) w)"
| "step (KeyDown k shift) w = snd (dispatchEvent (keydown_event k shift w) w)"
| "step (Resize n) w = snd (dispatchEvent resize_event (w\<lparr>innerWidth := n\<rparr>))"
| "step Frame w = foldl (\<lambda>v cb. report (callback cb v)) (w\<lparr>frames := []\<rparr>) (frames w)"
| "step OutsideClickTimer w =
     (case pendingOutsideClick w of None \<Rightarrow> w
      | Some ev \<Rightarrow> snd (report_ev (handleOutsideClick_v8 (ev, w\<lparr>pendingOutsideClick := None\<rparr>))))"
| "step ResizeTimer w =
     (if pendingResize w then report (resizeCheck_v8 (w\<lparr>pendingResize := False\<rparr>)) else w)"

definition run :: "input list \<Rightarrow> world \<Rightarrow> world" where
  "run ins w = foldl (\<lambda>v i. step i v) w ins"

section \<open>Loading a page\<close>

text \<open>
  Loading a page with one of the scripts runs the script's start-up code on the fresh
  world. An exception that escaped it would be reported like any other.
\<close>

definition boot :: "dom \<Rightarrow> world" where
  "boot d = report (init (fresh d))"

definition boot_v8 :: "dom \<Rightarrow> world" where
  "boot_v8 d = report (init_v8 (fresh d))"

definition boot_pro :: "dom \<Rightarrow> world" where
  "boot_pro d = report (init_pro (fresh d))"

definition boot_v2 :: "dom \<Rightarrow> world" where
  "boot_v2 d = report (init_v2 (fresh d))"


text \<open>
  The start-up code calls the \<open>init\<close> functions of the modules one after the other
  (\<open>mobileNav.init(); stickyHeader.init(); ...\<close>, in version 6.0 as the elements of an
  array literal): an exception in one of them ends the sequence.
\<close>

fun startup :: "(world \<Rightarrow> world outcome) list \<Rightarrow> world \<Rightarrow> world outcome" where
  "startup [] w = Returns w"
| "startup (f # fs) w = andThen (f w) (startup fs)"

section \<open>The states a loaded page can reach\<close>

text \<open>
  \<open>ready d t n w\<close> describes the worlds of a page \<open>d\<close> on which version 6.0 found
  the trigger \<open>t\<close> and the panel \<open>n\<close>: the fields \<open>init\<close> has set, the listeners it
  has registered, and the attributes that go with \<open>isOpen\<close>. \<open>init\<close> establishes it
  and every input keeps it. The body class goes with \<open>isOpen\<close> as well when the page's
  markup does not carry it from the start.
\<close>

definition listeners_v6 :: "elem \<Rightarrow> elem list \<Rightarrow> (event_target \<times> string \<times> listener) list" where
  "listeners_v6 t fs =
     [(Node t, ''click'', ToggleMenu), (Document, ''keydown'', HandleKeydown),
      (Document, ''click'', OutsideClick)]
     @ map (\<lambda>l. (Node l, ''click'', LinkClick)) fs
     @ [(Window, ''resize'', HandleResize)]"

definition ready :: "dom \<Rightarrow> elem \<Rightarrow> elem \<Rightarrow> world \<Rightarrow> bool" where
  "ready d t n w \<longleftrightarrow>
     select w = select d \<and> body w = body d \<and>
     toggleButton w = Some t \<and> navContainer w = Some n \<and> elBody w = Some (body d) \<and>
     focusableElements w = filter (strict_prefix n) (select d focusable_selector) \<and>
     firstFocusable w = item (focusableElements w) 0 \<and>
     lastFocusable w = item (focusableElements w) (int (length (focusableElements w)) - 1) \<and>
     listeners w = listeners_v6 t (focusableElements w) \<and>
     uncaught w = [] \<and> pendingOutsideClick w = None \<and> \<not> pendingResize w \<and>
     set (frames w) \<subseteq> {FocusFirstFocusable} \<and>
     attributes w t ''aria-expanded'' = Some (String (isOpen w)) \<and>
     attributes w n ''aria-hidden'' = Some (String (\<not> isOpen w)) \<and>
     (''mobile-nav-open'' \<notin> classes d (body d) \<longrightarrow>
        (''mobile-nav-open'' \<in> classes w (body d)) = isOpen w)"

definition v6_listener :: "listener \<Rightarrow> bool" where
  "v6_listener l \<longleftrightarrow> l \<in> {ToggleMenu, HandleKeydown, OutsideClick, LinkClick, HandleResize}"


text \<open>The same for version 8.0, the Professional Edition and the script built from functions.\<close>

definition listeners_v8 :: "elem \<Rightarrow> elem list \<Rightarrow> (event_target \<times> string \<times> listener) list" where
  "listeners_v8 t fs =
     [(Node t, ''click'', Toggle_v8), (Document, ''keydown'', HandleKeydown_v8),
      (Document, ''click'', DebouncedOutsideClick_v8)]
     @ map (\<lambda>l. (Node l, ''click'', LinkClick_v8)) fs
     @ [(Window, ''resize'', DebouncedResize_v8)]"

definition ready_v8 :: "dom \<Rightarrow> elem \<Rightarrow> elem \<Rightarrow> world \<Rightarrow> bool" where
  "ready_v8 d t n w \<longleftrightarrow>
     select w = select d \<and> body w = body d \<and>
     toggleButton w = Some t \<and> navContainer w = Some n \<and> elBody w = Some (body d) \<and>
     focusableElements w = filter (strict_prefix n) (select d ''a[href], button:not([disabled])'') \<and>
     listeners w = listeners_v8 t (focusableElements w) \<and>
     uncaught w = [] \<and>
     set (frames w) \<subseteq> {FocusFirst_v8} \<and>
     attributes w t ''aria-expanded'' = Some (String (isOpen w)) \<and>
     (''mobile-nav-open'' \<notin> classes d (body d) \<longrightarrow>
        (''mobile-nav-open'' \<in> classes w (body d)) = isOpen w)"

definition v8_listener :: "listener \<Rightarrow> bool" where
  "v8_listener l \<longleftrightarrow>
     l \<in> {Toggle_v8, HandleKeydown_v8, DebouncedOutsideClick_v8, LinkClick_v8, DebouncedResize_v8}"

definition listeners_pro :: "elem \<Rightarrow> (event_target \<times> string \<times> listener) list" where
  "listeners_pro t = [(Node t, ''click'', ToggleMenu_pro), (Document, ''keydown'', HandleKeydown_pro)]"

definition ready_pro :: "dom \<Rightarrow> elem \<Rightarrow> elem \<Rightarrow> world \<Rightarrow> bool" where
  "ready_pro d t n w \<longleftrightarrow>
     select w = select d \<and> body w = body d \<and>
     toggleButton w = Some t \<and> navContainer w = Some n \<and>
     focusableElements w = filter (strict_prefix n) (select d ''a[href], button'') \<and>
     firstFocusable w = item (focusableElements w) 0 \<and>
     lastFocusable w = item (focusableElements w) (int (length (focusableElements w)) - 1) \<and>
     listeners w = listeners_pro t \<and>
     frames w = [] \<and> pendingOutsideClick w = None \<and> \<not> pendingResize w"

definition pro_listener :: "listener \<Rightarrow> bool" where
  "pro_listener l \<longleftrightarrow> l \<in> {ToggleMenu_pro, HandleKeydown_pro}"


text \<open>The listeners a click on \<open>x\<close> meets on the way from \<open>x\<close> up to the root element.\<close>

definition node_listeners :: "elem \<Rightarrow> world \<Rightarrow> listener list" where
  "node_listeners x w = concat (map (\<lambda>a. listeners_on (Node a) ''click'' w) (rev (prefixes x)))"

text \<open>A world in which nothing is registered and nothing is pending.\<close>

definition inert :: "world \<Rightarrow> bool" where
  "inert w \<longleftrightarrow> listeners w = [] \<and> frames w = [] \<and> pendingOutsideClick w = None \<and> \<not> pendingResize w"

text \<open>
  Two worlds that differ at most in the attributes and the classes of the document and,
  as these decide which elements take the focus, in the focused element.
\<close>

definition agree :: "world \<Rightarrow> world \<Rightarrow> bool" where
  "agree w w' \<longleftrightarrow>
     select w' = select w \<and> body w' = body w \<and> styles w' = styles w \<and>
     innerWidth w' = innerWidth w \<and>
     prefersReducedMotion w' = prefersReducedMotion w \<and> takesFocus w' = takesFocus w \<and>
     isOpen w' = isOpen w \<and> toggleButton w' = toggleButton w \<and>
     navContainer w' = navContainer w \<and> elBody w' = elBody w \<and>
     focusableElements w' = focusableElements w \<and> firstFocusable w' = firstFocusable w \<and>
     lastFocusable w' = lastFocusable w \<and> listeners w' = listeners w \<and>
     frames w' = frames w \<and> pendingOutsideClick w' = pendingOutsideClick w \<and>
     pendingResize w' = pendingResize w \<and> uncaught w' = uncaught w"

section \<open>Pages to run the scripts on\<close>

text \<open>
  The root element has a head (\<open>[0]\<close>) and a body (\<open>[1]\<close>). The body holds a header
  (\<open>[1,0]\<close>) with the trigger button (\<open>[1,0,0]\<close>) and the panel (\<open>[1,0,1]\<close>) of
  three links, and the main content (\<open>[1,1]\<close>) with one more link. No attribute, class
  or inline style is set, nothing has the focus, the window is 375 pixels wide. The
  style sheet hides nothing: every element takes the focus unless it carries the
  attribute \<open>disabled\<close>.
\<close>

definition example_page :: dom where
  "example_page =
     \<lparr>select = (\<lambda>s. if s = ''.mobile-menu-toggle'' then [[1,0,0]]
                    else if s = ''#nav-links'' then [[1,0,1]]
                    else if s = focusable_selector \<or> s = ''a[href], button''
                            \<or> s = ''a[href], button:not([disabled])''
                      then [[1,0,1,0],[1,0,1,1],[1,0,1,2],[1,1,0]]
                    else []),
      body = [1],
      attributes = (\<lambda>e a. None),
      classes = (\<lambda>e. {}),
      styles = (\<lambda>e p. []),
      activeElement = None,
      innerWidth = 375,
      prefersReducedMotion = False,
      takesFocus = (\<lambda>A C S k e. A e ''disabled'' = None)\<rparr>"

text \<open>The same page with the focus on the link of the main content.\<close>

definition focused_page :: dom where
  "focused_page = example_page\<lparr>activeElement := Some [1,1,0]\<rparr>"


text \<open>A page that has the trigger but no panel.\<close>

definition trigger_only_page :: dom where
  "trigger_only_page =
     example_page\<lparr>select := (\<lambda>s. if s = ''.mobile-menu-toggle'' then [[1,0,0]] else [])\<rparr>"

section \<open>The component loader (versions 5.1 and 6.0)\<close>

text \<open>
  The loader runs before the navigation is set up and changes the shape of the document,
  so its document is the tree itself: an element with its tag, attributes and child
  nodes, a text node or a comment. The document is its root element. A position is the
  list of child indices from the root.
\<close>

datatype node = Element (tag: string) (attrs: "(string \<times> string) list") (children: "node list")
  | Text string | Comment string

text \<open>
  \<open>getElementById\<close>: the first element in tree order whose \<open>id\<close> is the given one;
  no element is found for the empty string.
\<close>

fun find_id :: "string \<Rightarrow> node \<Rightarrow> nat list option"
  and find_id_list :: "string \<Rightarrow> nat \<Rightarrow> node list \<Rightarrow> nat list option" where
  "find_id i (Text s) = None"
| "find_id i (Comment s) = None"
| "find_id i (Element t a cs) =
     (if map_of a ''id'' = Some i then Some [] else find_id_list i 0 cs)"
| "find_id_list i k [] = None"
| "find_id_list i k (c # cs) =
     (case find_id i c of Some p \<Rightarrow> Some (k # p) | None \<Rightarrow> find_id_list i (Suc k) cs)"

definition getElementById :: "string \<Rightarrow> node \<Rightarrow> nat list option" where
  "getElementById i doc = (if i = [] then None else find_id i doc)"

text \<open>The node at a position, if there is one.\<close>

fun node_at :: "nat list \<Rightarrow> node \<Rightarrow> node option" where
  "node_at [] n = Some n"
| "node_at (k # p) (Element t a cs) = (if k < length cs then node_at p (cs ! k) else None)"
| "node_at (k # p) (Text s) = None"
| "node_at (k # p) (Comment s) = None"

text \<open>
  Turning markup into nodes is the browser's work, and what it makes of a text depends
  on the element the text is parsed for: for the root element it supplies a head and a
  body, for a table it drops what cannot stand in a table. So the parser is a parameter
  of the loader: \<open>parse c s\<close> are the nodes the browser makes of the text \<open>s\<close> for
  the context element \<open>c\<close>.

  \<open>update_at p f n\<close> replaces the node at \<open>p\<close> by the nodes \<open>f\<close> makes of it.
  \<open>replace_node\<close> puts a list of nodes in the place of one node (\<open>replaceWith\<close>).
  The \<open>innerHTML\<close> setter parses the text for the element itself and replaces its
  children. The \<open>outerHTML\<close> setter throws when the parent of the element is the
  document, that is, for the root element; otherwise it parses the text for the parent
  and puts the result in the place of the element.
\<close>

type_synonym parser = "node \<Rightarrow> string \<Rightarrow> node list"

fun update_at :: "nat list \<Rightarrow> (node \<Rightarrow> node list) \<Rightarrow> node \<Rightarrow> node list" where
  "update_at [] f n = f n"
| "update_at (k # p) f (Element t a cs) =
     [Element t a (take k cs @ (if k < length cs then update_at p f (cs ! k) else []) @ drop (Suc k) cs)]"
| "update_at (k # p) f (Text s) = [Text s]"
| "update_at (k # p) f (Comment s) = [Comment s]"

definition replace_node :: "nat list \<Rightarrow> node list \<Rightarrow> node \<Rightarrow> node" where
  "replace_node p ns doc = (case update_at p (\<lambda>_. ns) doc of [d] \<Rightarrow> d | _ \<Rightarrow> doc)"

fun with_children :: "node list \<Rightarrow> node \<Rightarrow> node" where
  "with_children ns (Element t a cs) = Element t a ns"
| "with_children ns (Text s) = Text s"
| "with_children ns (Comment s) = Comment s"

definition set_innerHTML :: "parser \<Rightarrow> nat list \<Rightarrow> string \<Rightarrow> node \<Rightarrow> node" where
  "set_innerHTML parse p markup doc =
     (case update_at p (\<lambda>n. [with_children (parse n markup) n]) doc of [d] \<Rightarrow> d | _ \<Rightarrow> doc)"

definition set_outerHTML :: "parser \<Rightarrow> nat list \<Rightarrow> string \<Rightarrow> node \<Rightarrow> node outcome" where
  "set_outerHTML parse p markup doc =
     (if p = [] then Throws NoModificationAllowedError doc
      else (case node_at (butlast p) doc of None \<Rightarrow> Returns doc
            | Some parent \<Rightarrow> Returns (replace_node p (parse parent markup) doc)))"

text \<open>\<open>firstElementChild\<close> of a container that holds the parsed nodes.\<close>

fun firstElementChild :: "node list \<Rightarrow> node option" where
  "firstElementChild [] = None"
| "firstElementChild (Element t a cs # ns) = Some (Element t a cs)"
| "firstElementChild (Text s # ns) = firstElementChild ns"
| "firstElementChild (Comment s # ns) = firstElementChild ns"

text \<open>
  What \<open>fetch(url)\<close> and \<open>response.text()\<close> give is the network's choice: the
  request is rejected, or there is a response that is ok or not and whose body can be
  read, giving its text, or not.
\<close>

datatype body_result = BodyFails | Body string

datatype fetch_result = Rejected | Response bool body_result

text \<open>
  One call of \<open>fetchAndInject\<close> is modelled from its start to its end, with the
  document as the call finds it and nothing else changing the document meanwhile.
\<close>

subsection \<open>Version 5.1: \<open>componentLoader.fetchAndInject\<close>\<close>

text \<open>
  The catch block writes a paragraph whose text is built around the URL and then parsed
  like any other markup. Everything thrown inside \<open>try\<close> ends in the catch block,
  which cannot throw.
\<close>

definition fallback_markup_v5 :: "string \<Rightarrow> string" where
  \<open>fallback_markup_v5 url =
     ''<p style="text-align:center; color:red;">Failed to load component: '' @ url @ ''</p>''\<close>

definition fetchAndInject_v5 ::
  "parser \<Rightarrow> (string \<Rightarrow> fetch_result) \<Rightarrow> string \<Rightarrow> string \<Rightarrow> node \<Rightarrow> node outcome" where
  "fetchAndInject_v5 parse fetch url placeholderId doc =
     (case getElementById placeholderId doc of None \<Rightarrow> Returns doc
      | Some placeholder \<Rightarrow>
        (case (case fetch url of Rejected \<Rightarrow> Throws NetworkError doc
               | Response ok b \<Rightarrow>
                   if \<not> ok then Throws HttpError doc
                   else (case b of BodyFails \<Rightarrow> Throws NetworkError doc
                         | Body html \<Rightarrow> set_outerHTML parse placeholder html doc))
         of Returns doc' \<Rightarrow> Returns doc'
          | Throws e doc' \<Rightarrow>
              Returns (set_innerHTML parse placeholder (fallback_markup_v5 url) doc')))"

subsection \<open>Version 6.0: \<open>componentLoader.fetchAndInject\<close>\<close>

text \<open>
  The loader object keeps a cache from URLs to retrieved texts. \<open>retrieve_v6\<close> is the
  first half of the \<open>try\<close> block: the cached text unless it is missing or empty
  (\<open>if (!html)\<close>), otherwise the fetched one, which is then cached. It fails before
  anything has been changed. The text is parsed for a new \<open>div\<close> element that is not
  part of the document.
\<close>

record loader =
  document :: node
  cache :: "string \<Rightarrow> string option"

text \<open>The fallback markup of the catch block, with the white space of the template literal.\<close>

definition indent :: "nat \<Rightarrow> string" where
  "indent k = CHR 0x0A # replicate k (CHR '' '')"

definition fallback_markup_v6 :: string where
  \<open>fallback_markup_v6 =
     indent 20 @ ''<div style="text-align: center; padding: 2rem; color: #999;">''
     @ indent 24 @ ''<p>Content temporarily unavailable</p>''
     @ indent 20 @ ''</div>'' @ indent 16\<close>

definition retrieve_v6 ::
  "(string \<Rightarrow> fetch_result) \<Rightarrow> string \<Rightarrow> loader \<Rightarrow> js_error + (string \<times> loader)" where
  "retrieve_v6 fetch url s =
     (case (case cache s url of None \<Rightarrow> None
            | Some html \<Rightarrow> if html = [] then None else Some html) of
        Some html \<Rightarrow> Inr (html, s)
      | None \<Rightarrow>
         (case fetch url of Rejected \<Rightarrow> Inl NetworkError
          | Response ok b \<Rightarrow>
              if \<not> ok then Inl HttpError
              else (case b of BodyFails \<Rightarrow> Inl NetworkError
                    | Body html \<Rightarrow> Inr (html, s\<lparr>cache := (cache s)(url \<mapsto> html)\<rparr>))))"

definition fetchAndInject_v6 ::
  "parser \<Rightarrow> (string \<Rightarrow> fetch_result) \<Rightarrow> string \<Rightarrow> string \<Rightarrow> loader \<Rightarrow> loader outcome" where
  "fetchAndInject_v6 parse fetch url placeholderId s =
     (case getElementById placeholderId (document s) of None \<Rightarrow> Returns s
      | Some placeholder \<Rightarrow>
        (case retrieve_v6 fetch url s of
           Inr (html, s1) \<Rightarrow>
             (case firstElementChild (parse (Element ''div'' [] []) html) of
                Some newElement \<Rightarrow>
                  Returns (s1\<lparr>document := replace_node placeholder [newElement] (document s1)\<rparr>)
              | None \<Rightarrow>
                  Returns (s1\<lparr>document := set_innerHTML parse placeholder html (document s1)\<rparr>))
         | Inl e \<Rightarrow>
             Returns (s\<lparr>document :=
                        set_innerHTML parse placeholder fallback_markup_v6 (document s)\<rparr>)))"

text \<open>A retrieval has failed when the request was rejected, the response is not ok or
  its body cannot be read.\<close>

fun retrieval_failed :: "fetch_result \<Rightarrow> bool" where
  "retrieval_failed Rejected = True"
| "retrieval_failed (Response ok BodyFails) = True"
| "retrieval_failed (Response ok (Body html)) = (\<not> ok)"

subsection \<open>A document with a placeholder, three networks and the parser on their texts\<close>

definition placeholder_page :: node where
  "placeholder_page =
     Element ''html'' []
       [Element ''head'' [] [],
        Element ''body'' []
          [Element ''div'' [(''id'', ''header-placeholder'')] [], Element ''main'' [] []]]"

definition two_part_response :: "string \<Rightarrow> fetch_result" where
  "two_part_response url = Response True (Body ''<header></header><nav></nav>'')"

definition text_response :: "string \<Rightarrow> fetch_result" where
  "text_response url = Response True (Body ''Menu'')"

definition offline :: "string \<Rightarrow> fetch_result" where
  "offline url = Rejected"

definition empty_loader :: loader where
  "empty_loader = \<lparr>document = placeholder_page, cache = (\<lambda>url. None)\<rparr>"

text \<open>
  What the browser's parser makes of the four texts that occur in the examples: the two
  response bodies and the two fallback texts. In the examples they are parsed for a
  \<open>div\<close> or for the body, where the result is the same; no other text is parsed
  there.
\<close>

definition example_parse :: parser where
  "example_parse c s =
     (if s = ''<header></header><nav></nav>'' then [Element ''header'' [] [], Element ''nav'' [] []]
      else if s = ''Menu'' then [Text ''Menu'']
      else if s = fallback_markup_v5 ''header.html'' then
        [Element ''p'' [(''style'', ''text-align:center; color:red;'')]
           [Text ''Failed to load component: header.html'']]
      else if s = fallback_markup_v6 then
        [Text (indent 20),
         Element ''div'' [(''style'', ''text-align: center; padding: 2rem; color: #999;'')]
           [Text (indent 24), Element ''p'' [] [Text ''Content temporarily unavailable''],
            Text (indent 20)],
         Text (indent 16)]
      else [])"

section \<open>Reveal on scroll: \<open>createScrollReveal\<close> and the \<open>scrollAnimator\<close> of the Professional Edition\<close>

text \<open>
  Besides the document, the page has the intersection observers created so far, each
  with the callback it was given and the elements it observes, and the timeouts the
  reveal callback has started (element and delay). Whether an element intersects the
  viewport by the threshold is the browser's finding; a callback receives it as the flag
  of an entry.
\<close>

datatype observer = RevealObserver | AnimatorObserver

record page = dom +
  observers :: "(observer \<times> elem list) list"
  timeouts :: "(elem \<times> string) list"

definition observe :: "nat \<Rightarrow> elem \<Rightarrow> page \<Rightarrow> page" where
  "observe k el w =
     w\<lparr>observers := (observers w)[k := (fst (observers w ! k), snd (observers w ! k) @ [el])]\<rparr>"

definition unobserve :: "nat \<Rightarrow> elem \<Rightarrow> page \<Rightarrow> page" where
  "unobserve k el w =
     w\<lparr>observers := (observers w)[k := (fst (observers w ! k), removeAll el (snd (observers w ! k)))]\<rparr>"

text \<open>\<open>el.dataset.delay || 0\<close>: the attribute \<open>data-delay\<close>, or 0 when it is absent or empty.\<close>

definition dataset_delay :: "elem \<Rightarrow> page \<Rightarrow> string" where
  "dataset_delay el w =
     (case getAttribute el ''data-delay'' w of None \<Rightarrow> ''0''
      | Some s \<Rightarrow> if s = [] then ''0'' else s)"

subsection \<open>\<open>createScrollReveal\<close>\<close>

definition reveal_selector :: string where
  "reveal_selector = ''.anim-fade-in-up, .anim-slide-in-left, .anim-slide-in-right''"

definition createScrollReveal :: "page \<Rightarrow> page" where
  "createScrollReveal w =
     (if prefersReducedMotion w then
        foldl (\<lambda>v el. setStyle el ''transform'' ''none'' (setStyle el ''opacity'' ''1'' v))
          w (querySelectorAll reveal_selector w)
      else
        (let k = length (observers w);
             w1 = w\<lparr>observers := observers w @ [(RevealObserver, [])]\<rparr>
         in foldl (\<lambda>v el. observe k el v) w1 (querySelectorAll reveal_selector w1)))"

text \<open>The observer's callback and the function its timeout runs.\<close>

definition reveal_callback :: "(elem \<times> bool) list \<Rightarrow> page \<Rightarrow> page" where
  "reveal_callback entries w =
     foldl (\<lambda>v (el, isIntersecting).
              if isIntersecting then v\<lparr>timeouts := timeouts v @ [(el, dataset_delay el v)]\<rparr> else v)
       w entries"

definition reveal_timeout :: "elem \<Rightarrow> page \<Rightarrow> page" where
  "reveal_timeout el w = classList_add el ''visible'' w"

subsection \<open>\<open>scrollAnimator.init\<close>\<close>

definition scrollAnimator_init :: "page \<Rightarrow> page" where
  "scrollAnimator_init w =
     (let elementsToAnimate = querySelectorAll ''.fade-in-up'' w in
      if length elementsToAnimate = 0 then w
      else if prefersReducedMotion w then
        foldl (\<lambda>v el. classList_add el ''is-visible'' v) w elementsToAnimate
      else
        (let k = length (observers w);
             w1 = w\<lparr>observers := observers w @ [(AnimatorObserver, [])]\<rparr>
         in foldl (\<lambda>v el. observe k el v) w1 elementsToAnimate))"

definition animator_callback :: "nat \<Rightarrow> (elem \<times> bool) list \<Rightarrow> page \<Rightarrow> page" where
  "animator_callback k entries w =
     foldl (\<lambda>v (el, isIntersecting).
              if isIntersecting then
                unobserve k el
                  (classList_add el ''is-visible''
                    (setStyle el ''transitionDelay'' (dataset_delay el v @ ''ms'') v))
              else v)
       w entries"

text \<open>A page with two reveal targets, one animator target and the reduced-motion preference.\<close>

definition reduced_motion_page :: page where
  "reduced_motion_page =
     \<lparr>select = (\<lambda>s. if s = reveal_selector then [[1,1,1],[1,1,2]]
                    else if s = ''.fade-in-up'' then [[1,1,3]] else []),
      body = [1],
      attributes = (\<lambda>e a. None),
      classes = (\<lambda>e. {}),
      styles = (\<lambda>e p. []),
      activeElement = None,
      innerWidth = 375,
      prefersReducedMotion = True,
      takesFocus = (\<lambda>A C S k e. A e ''disabled'' = None),
      observers = [],
      timeouts = []\<rparr>"


section \<open>What \<open>focus\<close> changes\<close>

lemma focus_dom [simp]:
  "select (focus e d) = select d" "body (focus e d) = body d"
  "attributes (focus e d) = attributes d" "classes (focus e d) = classes d"
  "styles (focus e d) = styles d" "innerWidth (focus e d) = innerWidth d"
  "prefersReducedMotion (focus e d) = prefersReducedMotion d"
  "takesFocus (focus e d) = takesFocus d"
  by (simp_all add: focus_def)

lemma focus_world [simp]:
  "isOpen (focus e w) = isOpen w" "toggleButton (focus e w) = toggleButton w"
  "navContainer (focus e w) = navContainer w" "elBody (focus e w) = elBody w"
  "focusableElements (focus e w) = focusableElements w"
  "firstFocusable (focus e w) = firstFocusable w" "lastFocusable (focus e w) = lastFocusable w"
  "listeners (focus e w) = listeners w" "frames (focus e w) = frames w"
  "pendingOutsideClick (focus e w) = pendingOutsideClick w"
  "pendingResize (focus e w) = pendingResize w" "uncaught (focus e w) = uncaught w"
  by (simp_all add: focus_def)

lemma activeElement_focus:
  "activeElement (focus e d) = (if can_focus e d then Some e else activeElement d)"
  by (simp add: focus_def)

lemma can_focus_focus [simp]: "can_focus x (focus e d) = can_focus x d"
  by (simp add: focus_def can_focus_def)

lemma focus_restore [simp]: "(focus e d)\<lparr>activeElement := a\<rparr> = d\<lparr>activeElement := a\<rparr>"
  by (simp add: focus_def)

lemma can_focus_world [simp]:
  "can_focus e (w\<lparr>activeElement := a\<rparr>) = can_focus e w"
  "can_focus e (w\<lparr>frames := fr\<rparr>) = can_focus e w"
  "can_focus e (w\<lparr>isOpen := b\<rparr>) = can_focus e w"
  "can_focus e (w\<lparr>uncaught := u\<rparr>) = can_focus e w"
  "can_focus e (w\<lparr>pendingOutsideClick := pc\<rparr>) = can_focus e w"
  "can_focus e (w\<lparr>pendingResize := pr\<rparr>) = can_focus e w"
  by (simp_all add: can_focus_def)


section \<open>Version 6.0: every input keeps the page ready\<close>

lemma foldl_addEventListener:
  "foldl (\<lambda>v link. addEventListener (Node link) ty l v) w fs
     = w\<lparr>listeners := listeners w @ map (\<lambda>x. (Node x, ty, l)) fs\<rparr>"
  by (induction fs arbitrary: w) (simp_all add: addEventListener_def)

lemma bindEvents_Some:
  "toggleButton w = Some t \<Longrightarrow>
   bindEvents w = Returns (w\<lparr>listeners := listeners w @ listeners_v6 t (focusableElements w)\<rparr>)"
  unfolding bindEvents_def Let_def foldl_addEventListener
  by (simp add: addEventListener_def listeners_v6_def)

lemma setupAccessibility_Some:
  "toggleButton w = Some t \<Longrightarrow> navContainer w = Some n \<Longrightarrow>
   setupAccessibility w =
     Returns (setAttribute n ''aria-hidden'' ''true''
       (setAttribute t ''aria-controls'' ''nav-links''
         (setAttribute t ''aria-expanded'' ''false'' w)))"
  by (simp add: setupAccessibility_def Let_def setAttribute_def)

lemma init_found:
  assumes "querySelector ''.mobile-menu-toggle'' w = Some t"
    and "querySelector ''#nav-links'' w = Some n"
  shows "init w =
     Returns (setAttribute n ''aria-hidden'' ''true''
       (setAttribute t ''aria-controls'' ''nav-links''
         (setAttribute t ''aria-expanded'' ''false''
           (w\<lparr>toggleButton := Some t, navContainer := Some n, elBody := Some (body w),
               focusableElements := querySelectorAll_in n focusable_selector w,
               firstFocusable := item (querySelectorAll_in n focusable_selector w) 0,
               lastFocusable := item (querySelectorAll_in n focusable_selector w)
                  (int (length (querySelectorAll_in n focusable_selector w)) - 1),
               listeners := listeners w @
                  listeners_v6 t (querySelectorAll_in n focusable_selector w)\<rparr>))))"
  using assms
  by (simp add: init_def Let_def querySelector_def querySelectorAll_in_def
      bindEvents_Some setupAccessibility_Some)

lemma init_missing:
  assumes "querySelector ''.mobile-menu-toggle'' w = None \<or> querySelector ''#nav-links'' w = None"
  shows "init w = Returns (w\<lparr>toggleButton := querySelector ''.mobile-menu-toggle'' w,
                  navContainer := querySelector ''#nav-links'' w,
                  elBody := Some (body w)\<rparr>)"
  using assms by (auto simp add: init_def Let_def querySelector_def split: option.splits list.splits)

lemma fresh_simps [simp]:
  "select (fresh d) = select d" "body (fresh d) = body d"
  "attributes (fresh d) = attributes d" "classes (fresh d) = classes d"
  "styles (fresh d) = styles d" "activeElement (fresh d) = activeElement d"
  "innerWidth (fresh d) = innerWidth d"
  "\<not> isOpen (fresh d)" "listeners (fresh d) = []" "frames (fresh d) = []"
  "uncaught (fresh d) = []" "pendingOutsideClick (fresh d) = None" "\<not> pendingResize (fresh d)"
  "toggleButton (fresh d) = None" "navContainer (fresh d) = None"
  by (simp_all add: fresh_def dom.defs world.defs)

lemma querySelector_fresh [simp]: "querySelector s (fresh d) = querySelector s d"
  by (simp add: querySelector_def)

lemma boot_ready:
  assumes "querySelector ''.mobile-menu-toggle'' d = Some t"
    and "querySelector ''#nav-links'' d = Some n"
  shows "ready d t n (boot d)" and "\<not> isOpen (boot d)"
  using assms
  by (simp_all add: boot_def init_found ready_def setAttribute_def querySelectorAll_in_def String_def)

lemma closeMenu_Some:
  assumes "toggleButton w = Some t" "navContainer w = Some n" "elBody w = Some b"
  shows "closeMenu w =
     Returns (focus t (setAttribute n ''aria-hidden'' ''true''
       (setAttribute t ''aria-expanded'' ''false''
         (classList_remove b ''mobile-nav-open'' (w\<lparr>isOpen := False\<rparr>)))))"
  using assms
  by (simp add: closeMenu_def Let_def setAttribute_def classList_remove_def)

lemma openMenu_Some:
  assumes "toggleButton w = Some t" "navContainer w = Some n" "elBody w = Some b"
  shows "openMenu w =
     Returns (requestAnimationFrame FocusFirstFocusable
       (setAttribute n ''aria-hidden'' ''false''
         (setAttribute t ''aria-expanded'' ''true''
           (classList_add b ''mobile-nav-open'' (w\<lparr>isOpen := True\<rparr>)))))"
  using assms
  by (simp add: openMenu_def Let_def setAttribute_def classList_add_def trapFocus_def
      requestAnimationFrame_def)

lemma closeMenu_ready:
  assumes "ready d t n w"
  shows "ready d t n (state_of (closeMenu w))" "returns (closeMenu w)"
    "\<not> isOpen (state_of (closeMenu w))"
  using assms
  by (auto simp add: ready_def closeMenu_Some setAttribute_def classList_remove_def focus_def
      String_def)

lemma openMenu_ready:
  assumes "ready d t n w"
  shows "ready d t n (state_of (openMenu w))" "returns (openMenu w)"
    "isOpen (state_of (openMenu w))"
  using assms
  by (auto simp add: ready_def openMenu_Some setAttribute_def classList_add_def
      requestAnimationFrame_def String_def)

lemma toggleMenu_ready:
  assumes "ready d t n w"
  shows "ready d t n (state_of (toggleMenu w))" "returns (toggleMenu w)"
    "isOpen (state_of (toggleMenu w)) = (\<not> isOpen w)"
  using assms closeMenu_ready[OF assms] openMenu_ready[OF assms]
  by (auto simp add: toggleMenu_def)

lemma returns_keep_event [simp]: "returns (keep_event ev r) = returns r"
  by (cases r) simp_all

lemma state_of_keep_event [simp]: "state_of (keep_event ev r) = (ev, state_of r)"
  by (cases r) simp_all

lemma report_ev_returns: "returns r \<Longrightarrow> report_ev r = state_of r"
  by (cases r) simp_all

lemma report_returns: "returns r \<Longrightarrow> report r = state_of r"
  by (cases r) simp_all

lemma item_Some_mem: "item xs i = Some x \<Longrightarrow> x \<in> set xs"
  by (auto simp add: item_def split: if_splits)

lemma item_first_last:
  "item xs 0 = None \<longleftrightarrow> xs = []" "item xs (int (length xs) - 1) = None \<longleftrightarrow> xs = []"
  by (auto simp add: item_def)

lemma handleTabNavigation_ready:
  assumes "ready d t n w"
  shows "ready d t n (snd (state_of (handleTabNavigation (ev, w))))"
    "returns (handleTabNavigation (ev, w))"
  using assms item_first_last[of "focusableElements w"]
  by (auto simp add: handleTabNavigation_def ready_def focus_def same_object_def
      split: option.splits)

lemma handleKeydown_ready:
  assumes "ready d t n w"
  shows "ready d t n (snd (state_of (handleKeydown (ev, w))))"
    "returns (handleKeydown (ev, w))"
  using closeMenu_ready[OF assms] handleTabNavigation_ready[OF assms] assms
  by (auto simp add: handleKeydown_def)

lemma outsideClick_ready:
  assumes "ready d t n w"
  shows "ready d t n (snd (state_of (outsideClick (ev, w))))"
    "returns (outsideClick (ev, w))"
  using closeMenu_ready[OF assms] assms
  by (auto simp add: outsideClick_def ready_def split: option.splits)

lemma linkClick_ready:
  assumes "ready d t n w"
  shows "ready d t n (snd (state_of (linkClick (ev, w))))"
    "returns (linkClick (ev, w))"
  using closeMenu_ready[OF assms] assms
  by (auto simp add: linkClick_def)

lemma handleResize_ready:
  assumes "ready d t n w"
  shows "ready d t n (state_of (handleResize w))" "returns (handleResize w)"
  using closeMenu_ready[OF assms] assms
  by (auto simp add: handleResize_def)

lemma invoke_ready:
  assumes "ready d t n w" "v6_listener l"
  shows "ready d t n (snd (report_ev (invoke l (ev, w))))"
  using assms(2) toggleMenu_ready[OF assms(1)] handleKeydown_ready[OF assms(1), of ev]
    outsideClick_ready[OF assms(1), of ev] linkClick_ready[OF assms(1), of ev]
    handleResize_ready[OF assms(1)]
  by (auto simp add: v6_listener_def report_ev_returns)

lemma foldl_invoke_ready:
  assumes "\<forall>l \<in> set ls. v6_listener l" "ready d t n (snd s)"
  shows "ready d t n (snd (foldl (\<lambda>s l. report_ev (invoke l s)) s ls))"
  using assms
proof (induction ls arbitrary: s)
  case Nil
  then show ?case by simp
next
  case (Cons l ls)
  obtain ev w where s: "s = (ev, w)" by (cases s)
  with Cons.prems have "ready d t n (snd (report_ev (invoke l s)))"
    using invoke_ready[of d t n w l ev] by simp
  with Cons show ?case by simp
qed

lemma listeners_on_v6:
  assumes "ready d t n w"
  shows "\<forall>l \<in> set (listeners_on tg ty w). v6_listener l"
  using assms
  by (auto simp add: listeners_on_def ready_def listeners_v6_def v6_listener_def)

lemma dispatchEvent_ready:
  assumes "ready d t n w"
  shows "ready d t n (snd (dispatchEvent ev w))"
  unfolding dispatchEvent_def
  by (rule foldl_invoke_ready) (use assms listeners_on_v6[OF assms] in auto)

lemma ready_innerWidth: "ready d t n w \<Longrightarrow> ready d t n (w\<lparr>innerWidth := k\<rparr>)"
  by (simp add: ready_def)

lemma foldl_callback_ready:
  assumes "set cbs \<subseteq> {FocusFirstFocusable}" "ready d t n w"
  shows "ready d t n (foldl (\<lambda>v cb. report (callback cb v)) w cbs)"
  using assms
proof (induction cbs arbitrary: w)
  case Nil
  then show ?case by simp
next
  case (Cons cb cbs)
  then have "cb = FocusFirstFocusable" by simp
  moreover have "ready d t n (report (focusFirstFocusable w))"
    using Cons.prems(2) by (auto simp add: focusFirstFocusable_def ready_def focus_def split: option.splits)
  ultimately show ?case using Cons by simp
qed

lemma step_ready:
  assumes "ready d t n w"
  shows "ready d t n (step i w)"
proof (cases i)
  case (Resize k)
  then show ?thesis using dispatchEvent_ready[OF ready_innerWidth[OF assms]] by simp
next
  case Frame
  have "ready d t n (w\<lparr>frames := []\<rparr>)" using assms by (simp add: ready_def)
  moreover have "set (frames w) \<subseteq> {FocusFirstFocusable}" using assms by (simp add: ready_def)
  ultimately show ?thesis using Frame foldl_callback_ready by simp
next
  case OutsideClickTimer
  then show ?thesis using assms by (simp add: ready_def)
next
  case ResizeTimer
  then show ?thesis using assms by (simp add: ready_def)
qed (use dispatchEvent_ready[OF assms] in simp_all)

lemma run_ready:
  assumes "ready d t n w"
  shows "ready d t n (run ins w)"
  using assms unfolding run_def
  by (induction ins arbitrary: w) (simp_all add: step_ready)

lemma listeners_on_click_Node:
  assumes "ready d t n w"
  shows "listeners_on (Node x) ''click'' w =
           (if x = t then [ToggleMenu] else [])
           @ map (\<lambda>_. LinkClick) (filter (\<lambda>l. l = x) (focusableElements w))"
  using assms
  by (simp add: listeners_on_def ready_def listeners_v6_def filter_map comp_def)

lemma listeners_on_v6_other:
  assumes "ready d t n w"
  shows "listeners_on Document ''click'' w = [OutsideClick]"
    "listeners_on Window ''click'' w = []"
    "listeners_on (Node x) ''keydown'' w = []"
    "listeners_on Document ''keydown'' w = [HandleKeydown]"
    "listeners_on Window ''keydown'' w = []"
    "listeners_on Window ''resize'' w = [HandleResize]"
  using assms
  by (simp_all add: listeners_on_def ready_def listeners_v6_def filter_map comp_def)

lemma concat_map_Nil: "(\<And>x. x \<in> set xs \<Longrightarrow> f x = []) \<Longrightarrow> concat (map f xs) = []"
  by (induction xs) simp_all

lemma keydown_dispatch:
  assumes "ready d t n w"
  shows "dispatchEvent (keydown_event k s w) w = report_ev (handleKeydown (keydown_event k s w, w))"
  using listeners_on_v6_other[OF assms]
  by (simp add: dispatchEvent_def keydown_event_def concat_map_Nil)

lemma resize_dispatch:
  assumes "ready d t n w"
  shows "dispatchEvent resize_event w = (resize_event, report (handleResize w))"
  using listeners_on_v6_other[OF assms] handleResize_ready[OF assms]
  by (cases "handleResize w") (simp_all add: dispatchEvent_def resize_event_def)

lemma click_dispatch:
  assumes "ready d t n w"
  shows "dispatchEvent (click_event x) w =
     report_ev (outsideClick
       (foldl (\<lambda>s l. report_ev (invoke l s)) (click_event x, w) (node_listeners x w)))"
  using listeners_on_v6_other[OF assms]
  by (simp add: dispatchEvent_def click_event_def node_listeners_def comp_def)

lemma focusable_inside:
  assumes "ready d t n w" "l \<in> set (focusableElements w)"
  shows "strict_prefix n l"
  using assms by (simp add: ready_def)

lemma node_listeners_outside:
  assumes "ready d t n w" "\<not> contains t x" "\<not> contains n x"
  shows "node_listeners x w = []"
  unfolding node_listeners_def
proof (rule concat_map_Nil)
  fix a assume "a \<in> set (rev (prefixes x))"
  then have a: "prefix a x" by simp
  with assms(2) have "a \<noteq> t" by (auto simp add: contains_def)
  moreover have "filter (\<lambda>l. l = a) (focusableElements w) = []"
  proof (rule ccontr)
    assume "filter (\<lambda>l. l = a) (focusableElements w) \<noteq> []"
    then have "a \<in> set (focusableElements w)"
      by (metis (mono_tags, lifting) filter_False)
    then have "strict_prefix n a" using focusable_inside[OF assms(1)] by simp
    with a have "prefix n x" by (meson prefix_order.less_imp_le prefix_order.trans)
    with assms(3) show False by (simp add: contains_def)
  qed
  ultimately show "listeners_on (Node a) ''click'' w = []"
    by (simp add: listeners_on_click_Node[OF assms(1)])
qed

lemma concat_single:
  "distinct xs \<Longrightarrow> t \<in> set xs \<Longrightarrow> concat (map (\<lambda>a. if a = t then [c] else []) xs) = [c]"
proof (induction xs)
  case Nil
  then show ?case by simp
next
  case (Cons a xs)
  show ?case
  proof (cases "a = t")
    case True
    with Cons.prems have "t \<notin> set xs" by simp
    then have "concat (map (\<lambda>a. if a = t then [c] else []) xs) = []"
      by (intro concat_map_Nil) auto
    with True show ?thesis by simp
  next
    case False
    with Cons show ?thesis by simp
  qed
qed

lemma node_listeners_trigger:
  assumes "ready d t n w" "contains t x" "\<not> contains n x"
  shows "node_listeners x w = [ToggleMenu]"
proof -
  have none: "filter (\<lambda>l. l = a) (focusableElements w) = []" if "prefix a x" for a
  proof (rule ccontr)
    assume "filter (\<lambda>l. l = a) (focusableElements w) \<noteq> []"
    then have "a \<in> set (focusableElements w)"
      by (metis (mono_tags, lifting) filter_False)
    then have "strict_prefix n a" using focusable_inside[OF assms(1)] by simp
    with that have "prefix n x" by (meson prefix_order.less_imp_le prefix_order.trans)
    with assms(3) show False by (simp add: contains_def)
  qed
  have "map (\<lambda>a. listeners_on (Node a) ''click'' w) (rev (prefixes x))
        = map (\<lambda>a. if a = t then [ToggleMenu] else []) (rev (prefixes x))"
    by (rule map_cong) (simp_all add: listeners_on_click_Node[OF assms(1)] none)
  moreover have "distinct (rev (prefixes x))" by (simp add: distinct_prefixes)
  moreover have "t \<in> set (rev (prefixes x))" using assms(2) by (simp add: contains_def)
  ultimately show ?thesis unfolding node_listeners_def by (simp only: concat_single)
qed

lemma node_listeners_link:
  assumes "ready d t n w" "\<not> contains t x" "l \<in> set (focusableElements w)" "contains l x"
  shows "set (node_listeners x w) = {LinkClick}"
proof -
  have "k = LinkClick" if "prefix a x" "k \<in> set (listeners_on (Node a) ''click'' w)" for a k
    using that assms(2) by (auto simp add: listeners_on_click_Node[OF assms(1)] contains_def)
  then have "set (node_listeners x w) \<subseteq> {LinkClick}"
    unfolding node_listeners_def by auto
  moreover have "LinkClick \<in> set (listeners_on (Node l) ''click'' w)"
    using assms(3) by (auto simp add: listeners_on_click_Node[OF assms(1)] )
  then have "LinkClick \<in> set (node_listeners x w)"
    unfolding node_listeners_def using assms(4) by (auto simp add: contains_def)
  ultimately show ?thesis by auto
qed

lemma closed_fold_id:
  assumes "\<not> isOpen w" "set ls \<subseteq> {LinkClick, OutsideClick}"
  shows "foldl (\<lambda>s l. report_ev (invoke l s)) (ev, w) ls = (ev, w)"
  using assms(2)
proof (induction ls)
  case Nil
  then show ?case by simp
next
  case (Cons l ls)
  then have "report_ev (invoke l (ev, w)) = (ev, w)"
    using assms(1) by (auto simp add: linkClick_def outsideClick_def)
  with Cons show ?case by simp
qed



lemma click_link_closed:
  assumes "ready d t n w" "\<not> isOpen w" "\<not> contains t x"
    "l \<in> set (focusableElements w)" "contains l x"
  shows "step (Click x) w = w"
proof -
  have "set (node_listeners x w) \<subseteq> {LinkClick, OutsideClick}"
    using node_listeners_link[OF assms(1,3,4,5)] by simp
  from closed_fold_id[OF assms(2) this] show ?thesis
    using assms(2) by (simp add: click_dispatch[OF assms(1)] outsideClick_def)
qed

lemma click_outside:
  assumes "ready d t n w" "\<not> contains t x" "\<not> contains n x"
  shows "step (Click x) w = (if isOpen w then state_of (closeMenu w) else w)"
proof -
  have "dispatchEvent (click_event x) w = report_ev (outsideClick (click_event x, w))"
    by (simp add: click_dispatch[OF assms(1)] node_listeners_outside[OF assms])
  moreover have "outsideClick (click_event x, w) =
      (if isOpen w then keep_event (click_event x) (closeMenu w) else Returns (click_event x, w))"
    using assms
    by (simp add: outsideClick_def ready_def contains_target_def click_event_def)
  ultimately show ?thesis
    using closeMenu_ready(2)[OF assms(1)] by (simp add: report_ev_returns)
qed

lemma click_trigger:
  assumes "ready d t n w" "contains t x" "\<not> contains n x"
  shows "step (Click x) w = state_of (toggleMenu w)"
proof -
  have r: "ready d t n (state_of (toggleMenu w))" and ret: "returns (toggleMenu w)"
    using toggleMenu_ready[OF assms(1)] by simp_all
  have "outsideClick (click_event x, state_of (toggleMenu w))
          = Returns (click_event x, state_of (toggleMenu w))"
    using r assms(2,3)
    by (auto simp add: outsideClick_def ready_def contains_target_def click_event_def)
  then show ?thesis
    using ret
    by (simp add: click_dispatch[OF assms(1)] node_listeners_trigger[OF assms] report_ev_returns)
qed

lemma toggle_clicks_parity:
  assumes "ready d t n w" "\<forall>x \<in> set xs. contains t x \<and> \<not> contains n x"
  shows "isOpen (run (map Click xs) w) = (isOpen w \<noteq> odd (length xs))"
  using assms
proof (induction xs arbitrary: w)
  case Nil
  then show ?case by (simp add: run_def)
next
  case (Cons x xs)
  then have s: "step (Click x) w = state_of (toggleMenu w)"
    using click_trigger[of d t n w x] by simp
  have r: "ready d t n (step (Click x) w)" using Cons.prems(1) by (rule step_ready)
  have "isOpen (step (Click x) w) = (\<not> isOpen w)"
    using toggleMenu_ready(3)[OF Cons.prems(1)] s by simp
  moreover have "run (map Click (x # xs)) w = run (map Click xs) (step (Click x) w)"
    by (simp add: run_def)
  ultimately show ?case using Cons.IH[OF r] Cons.prems(2) by auto
qed

lemma keydown_event_simps [simp]:
  "key (keydown_event k s w) = k" "shiftKey (keydown_event k s w) = s"
  "\<not> defaultPrevented (keydown_event k s w)" "etype (keydown_event k s w) = ''keydown''"
  by (simp_all add: keydown_event_def)

lemma escape_closes:
  assumes "ready d t n w"
  shows "step (KeyDown ''Escape'' shift) w = (if isOpen w then state_of (closeMenu w) else w)"
  using closeMenu_ready(2)[OF assms]
  by (simp add: keydown_dispatch[OF assms] handleKeydown_def report_ev_returns)

lemma reachable_ready:
  assumes "querySelector ''.mobile-menu-toggle'' d = Some t"
    and "querySelector ''#nav-links'' d = Some n"
  shows "ready d t n (run ins (boot d))"
  using boot_ready(1)[OF assms] by (rule run_ready)


lemma example_page_found:
  "querySelector ''.mobile-menu-toggle'' example_page = Some [1,0,0]"
  "querySelector ''#nav-links'' example_page = Some [1,0,1]"
  by (simp_all add: example_page_def querySelector_def)


section \<open>Professional Edition: reachable states and the Tab key\<close>

lemma init_pro_found:
  assumes "querySelector ''.mobile-menu-toggle'' w = Some t"
    and "querySelector ''#nav-links'' w = Some n"
  shows "init_pro w =
     Returns (w\<lparr>toggleButton := Some t, navContainer := Some n,
               focusableElements := querySelectorAll_in n ''a[href], button'' w,
               firstFocusable := item (querySelectorAll_in n ''a[href], button'' w) 0,
               lastFocusable := item (querySelectorAll_in n ''a[href], button'' w)
                  (int (length (querySelectorAll_in n ''a[href], button'' w)) - 1),
               listeners := listeners w @ listeners_pro t\<rparr>)"
  using assms
  by (simp add: init_pro_def Let_def querySelector_def querySelectorAll_in_def
      addEventListener_def listeners_pro_def)

lemma boot_pro_ready:
  assumes "querySelector ''.mobile-menu-toggle'' d = Some t"
    and "querySelector ''#nav-links'' d = Some n"
  shows "ready_pro d t n (boot_pro d)"
  using assms
  by (simp add: boot_pro_def init_pro_found ready_pro_def querySelectorAll_in_def)

lemma toggleMenu_pro_ready:
  assumes "ready_pro d t n w"
  shows "ready_pro d t n (report (toggleMenu_pro w))"
  using assms
  by (auto simp add: ready_pro_def toggleMenu_pro_def classList_toggle_def classList_add_def
      classList_remove_def setAttribute_def setStyle_def focus_def Let_def split: option.splits)

lemma handleKeydown_pro_ready:
  assumes "ready_pro d t n w"
  shows "ready_pro d t n (snd (report_ev (handleKeydown_pro (ev, w))))"
proof (cases "classList_contains (body w) ''mobile-nav-open'' w")
  case False
  then show ?thesis using assms by (simp add: handleKeydown_pro_def)
next
  case True
  show ?thesis
  proof (cases "key ev = ''Escape''")
    case esc: True
    then show ?thesis
      using True toggleMenu_pro_ready[OF assms]
      by (cases "toggleMenu_pro w") (simp_all add: handleKeydown_pro_def)
  next
    case False
    then show ?thesis
      using True assms
      by (auto simp add: handleKeydown_pro_def ready_pro_def focus_def split: option.splits)
  qed
qed

lemma invoke_pro_ready:
  assumes "ready_pro d t n w" "pro_listener l"
  shows "ready_pro d t n (snd (report_ev (invoke l (ev, w))))"
proof -
  have "snd (report_ev (keep_event ev r)) = report r" for r
    by (cases r) simp_all
  then show ?thesis
    using assms(2) toggleMenu_pro_ready[OF assms(1)] handleKeydown_pro_ready[OF assms(1), of ev]
    by (auto simp add: pro_listener_def)
qed

lemma foldl_invoke_pro_ready:
  assumes "\<forall>l \<in> set ls. pro_listener l" "ready_pro d t n (snd s)"
  shows "ready_pro d t n (snd (foldl (\<lambda>s l. report_ev (invoke l s)) s ls))"
  using assms
proof (induction ls arbitrary: s)
  case Nil
  then show ?case by simp
next
  case (Cons l ls)
  obtain ev w where s: "s = (ev, w)" by (cases s)
  with Cons.prems have "ready_pro d t n (snd (report_ev (invoke l s)))"
    using invoke_pro_ready[of d t n w l ev] by simp
  with Cons show ?case by simp
qed

lemma dispatchEvent_pro_ready:
  assumes "ready_pro d t n w"
  shows "ready_pro d t n (snd (dispatchEvent ev w))"
  unfolding dispatchEvent_def
  by (rule foldl_invoke_pro_ready)
     (use assms in \<open>auto simp add: listeners_on_def ready_pro_def listeners_pro_def pro_listener_def\<close>)

lemma step_pro_ready:
  assumes "ready_pro d t n w"
  shows "ready_pro d t n (step i w)"
proof (cases i)
  case (Resize k)
  have "ready_pro d t n (w\<lparr>innerWidth := k\<rparr>)" using assms by (simp add: ready_pro_def)
  then show ?thesis using Resize dispatchEvent_pro_ready by simp
next
  case Frame
  then show ?thesis using assms by (simp add: ready_pro_def)
next
  case OutsideClickTimer
  then show ?thesis using assms by (simp add: ready_pro_def)
next
  case ResizeTimer
  then show ?thesis using assms by (simp add: ready_pro_def)
qed (use dispatchEvent_pro_ready[OF assms] in simp_all)

lemma run_pro_ready:
  assumes "ready_pro d t n w"
  shows "ready_pro d t n (run ins w)"
  using assms unfolding run_def
  by (induction ins arbitrary: w) (simp_all add: step_pro_ready)


lemma click_dispatch_pro:
  assumes "ready_pro d t n w"
  shows "step (Click x) w = (if contains t x then report (toggleMenu_pro w) else w)"
proof -
  have on: "listeners_on (Node a) ''click'' w = (if a = t then [ToggleMenu_pro] else [])" for a
    using assms by (simp add: listeners_on_def ready_pro_def listeners_pro_def)
  have doc: "listeners_on Document ''click'' w = []" "listeners_on Window ''click'' w = []"
    using assms by (simp_all add: listeners_on_def ready_pro_def listeners_pro_def)
  have snd_rep: "snd (report_ev (keep_event ev r)) = report r" for r ev
    by (cases r) simp_all
  show ?thesis
  proof (cases "contains t x")
    case True
    then have nl: "concat (map (\<lambda>a. listeners_on (Node a) ''click'' w) (rev (prefixes x)))
                = [ToggleMenu_pro]"
      unfolding on by (intro concat_single) (simp_all add: contains_def distinct_prefixes)
    show ?thesis
      using True by (simp add: dispatchEvent_def click_event_def comp_def snd_rep nl doc)
  next
    case False
    then have nl: "concat (map (\<lambda>a. listeners_on (Node a) ''click'' w) (rev (prefixes x))) = []"
      unfolding on by (intro concat_map_Nil) (auto simp add: contains_def)
    show ?thesis
      using False by (simp add: dispatchEvent_def click_event_def comp_def nl doc)
  qed
qed

lemma item_hd_last:
  "xs \<noteq> [] \<Longrightarrow> item xs 0 = Some (hd xs)"
  "xs \<noteq> [] \<Longrightarrow> item xs (int (length xs) - 1) = Some (last xs)"
  by (cases xs; simp add: item_def last_conv_nth nat_diff_distrib')+



lemma ready_focusables:
  "ready d t n w \<Longrightarrow> focusableElements w = querySelectorAll_in n focusable_selector d"
  by (simp add: ready_def querySelectorAll_in_def)

lemma ready_pro_focusables:
  "ready_pro d t n w \<Longrightarrow> focusableElements w = querySelectorAll_in n ''a[href], button'' d"
  by (simp add: ready_pro_def querySelectorAll_in_def)

lemma reachable_pro_ready:
  assumes "querySelector ''.mobile-menu-toggle'' d = Some t"
    and "querySelector ''#nav-links'' d = Some n"
  shows "ready_pro d t n (run ins (boot_pro d))"
  using boot_pro_ready[OF assms] by (rule run_pro_ready)


lemma example_focusables:
  "querySelectorAll_in [1,0,1] focusable_selector example_page = [[1,0,1,0],[1,0,1,1],[1,0,1,2]]"
  "querySelectorAll_in [1,0,1] ''a[href], button'' example_page = [[1,0,1,0],[1,0,1,1],[1,0,1,2]]"
  by code_simp+



section \<open>Version 8.0: reachable states and dispatch\<close>

lemma bindEvents_v8_Some:
  "toggleButton w = Some t \<Longrightarrow>
   bindEvents_v8 w = Returns (w\<lparr>listeners := listeners w @ listeners_v8 t (focusableElements w)\<rparr>)"
  unfolding bindEvents_v8_def Let_def foldl_addEventListener
  by (simp add: addEventListener_def listeners_v8_def)

lemma init_v8_found:
  assumes "querySelector ''.mobile-menu-toggle'' w = Some t"
    and "querySelector ''#nav-links'' w = Some n"
  shows "init_v8 w =
     Returns (setAttribute t ''aria-controls'' ''nav-links''
         (setAttribute t ''aria-expanded'' ''false''
           (w\<lparr>toggleButton := Some t, navContainer := Some n, elBody := Some (body w),
               focusableElements := querySelectorAll_in n ''a[href], button:not([disabled])'' w,
               listeners := listeners w @
                  listeners_v8 t (querySelectorAll_in n ''a[href], button:not([disabled])'' w)\<rparr>)))"
  using assms
  by (simp add: init_v8_def cacheElements_v8_def Let_def querySelector_def querySelectorAll_in_def
      bindEvents_v8_Some setupAccessibility_v8_def setAttribute_def)

lemma init_v8_missing:
  assumes "querySelector ''.mobile-menu-toggle'' w = None \<or> querySelector ''#nav-links'' w = None"
  shows "init_v8 w = Returns (cacheElements_v8 w)" "listeners (cacheElements_v8 w) = listeners w"
  using assms
  by (auto simp add: init_v8_def cacheElements_v8_def Let_def split: option.splits)

lemma boot_v8_ready:
  assumes "querySelector ''.mobile-menu-toggle'' d = Some t"
    and "querySelector ''#nav-links'' d = Some n"
  shows "ready_v8 d t n (boot_v8 d)" and "\<not> isOpen (boot_v8 d)"
  using assms
  by (simp_all add: boot_v8_def init_v8_found ready_v8_def setAttribute_def querySelectorAll_in_def
      String_def)

lemma close_v8_Some:
  assumes "toggleButton w = Some t" "elBody w = Some b"
  shows "close_v8 w =
     Returns (focus t (setAttribute t ''aria-expanded'' ''false''
         (classList_remove b ''mobile-nav-open'' (w\<lparr>isOpen := False\<rparr>))))"
  using assms
  by (simp add: close_v8_def Let_def setAttribute_def classList_remove_def)

lemma open_v8_Some:
  assumes "toggleButton w = Some t" "elBody w = Some b"
  shows "open_v8 w =
     Returns (requestAnimationFrame FocusFirst_v8
         (setAttribute t ''aria-expanded'' ''true''
           (classList_add b ''mobile-nav-open'' (w\<lparr>isOpen := True\<rparr>))))"
  using assms
  by (simp add: open_v8_def Let_def setAttribute_def classList_add_def)

lemma close_v8_ready:
  assumes "ready_v8 d t n w"
  shows "ready_v8 d t n (state_of (close_v8 w))" "returns (close_v8 w)"
    "\<not> isOpen (state_of (close_v8 w))"
    "pendingOutsideClick (state_of (close_v8 w)) = pendingOutsideClick w"
    "pendingResize (state_of (close_v8 w)) = pendingResize w"
  using assms
  by (auto simp add: ready_v8_def close_v8_Some setAttribute_def classList_remove_def focus_def
      String_def)

lemma open_v8_ready:
  assumes "ready_v8 d t n w"
  shows "ready_v8 d t n (state_of (open_v8 w))" "returns (open_v8 w)"
    "isOpen (state_of (open_v8 w))"
  using assms
  by (auto simp add: ready_v8_def open_v8_Some setAttribute_def classList_add_def
      requestAnimationFrame_def String_def)

lemma toggle_v8_ready:
  assumes "ready_v8 d t n w"
  shows "ready_v8 d t n (state_of (toggle_v8 w))" "returns (toggle_v8 w)"
    "isOpen (state_of (toggle_v8 w)) = (\<not> isOpen w)"
  using assms close_v8_ready[OF assms] open_v8_ready[OF assms]
  by (auto simp add: toggle_v8_def)

lemma handleKeydown_v8_ready:
  assumes "ready_v8 d t n w"
  shows "ready_v8 d t n (snd (state_of (handleKeydown_v8 (ev, w))))"
    "returns (handleKeydown_v8 (ev, w))"
  using close_v8_ready[OF assms] assms
  by (auto simp add: handleKeydown_v8_def)

lemma handleOutsideClick_v8_ready:
  assumes "ready_v8 d t n w"
  shows "ready_v8 d t n (snd (state_of (handleOutsideClick_v8 (ev, w))))"
    "returns (handleOutsideClick_v8 (ev, w))"
  using close_v8_ready[OF assms] assms
  by (auto simp add: handleOutsideClick_v8_def ready_v8_def split: option.splits)

lemma linkClick_v8_ready:
  assumes "ready_v8 d t n w"
  shows "ready_v8 d t n (snd (state_of (linkClick_v8 (ev, w))))"
    "returns (linkClick_v8 (ev, w))"
  using close_v8_ready[OF assms] assms
  by (auto simp add: linkClick_v8_def)

lemma resizeCheck_v8_ready:
  assumes "ready_v8 d t n w"
  shows "ready_v8 d t n (state_of (resizeCheck_v8 w))" "returns (resizeCheck_v8 w)"
  using close_v8_ready[OF assms] assms
  by (auto simp add: resizeCheck_v8_def)

lemma debounced_v8_ready:
  assumes "ready_v8 d t n w"
  shows "ready_v8 d t n (snd (state_of (debouncedOutsideClick_v8 (ev, w))))"
    "returns (debouncedOutsideClick_v8 (ev, w))"
    "ready_v8 d t n (snd (state_of (debouncedResize_v8 (ev, w))))"
    "returns (debouncedResize_v8 (ev, w))"
  using assms
  by (auto simp add: debouncedOutsideClick_v8_def debouncedResize_v8_def ready_v8_def)

lemma invoke_v8_ready:
  assumes "ready_v8 d t n w" "v8_listener l"
  shows "ready_v8 d t n (snd (report_ev (invoke l (ev, w))))"
  using assms(2) toggle_v8_ready[OF assms(1)] handleKeydown_v8_ready[OF assms(1), of ev]
    linkClick_v8_ready[OF assms(1), of ev] debounced_v8_ready[OF assms(1), of ev]
  by (auto simp add: v8_listener_def report_ev_returns)

lemma foldl_invoke_v8_ready:
  assumes "\<forall>l \<in> set ls. v8_listener l" "ready_v8 d t n (snd s)"
  shows "ready_v8 d t n (snd (foldl (\<lambda>s l. report_ev (invoke l s)) s ls))"
  using assms
proof (induction ls arbitrary: s)
  case Nil
  then show ?case by simp
next
  case (Cons l ls)
  obtain ev w where s: "s = (ev, w)" by (cases s)
  with Cons.prems have "ready_v8 d t n (snd (report_ev (invoke l s)))"
    using invoke_v8_ready[of d t n w l ev] by simp
  with Cons show ?case by simp
qed

lemma dispatchEvent_v8_ready:
  assumes "ready_v8 d t n w"
  shows "ready_v8 d t n (snd (dispatchEvent ev w))"
  unfolding dispatchEvent_def
  by (rule foldl_invoke_v8_ready)
     (use assms in \<open>auto simp add: listeners_on_def ready_v8_def listeners_v8_def v8_listener_def\<close>)

lemma foldl_callback_v8_ready:
  assumes "set cbs \<subseteq> {FocusFirst_v8}" "ready_v8 d t n w"
  shows "ready_v8 d t n (foldl (\<lambda>v cb. report (callback cb v)) w cbs)"
  using assms
proof (induction cbs arbitrary: w)
  case Nil
  then show ?case by simp
next
  case (Cons cb cbs)
  then have "cb = FocusFirst_v8" by simp
  moreover have "ready_v8 d t n (report (focusFirst_v8 w))"
    using Cons.prems(2)
    by (auto simp add: focusFirst_v8_def ready_v8_def focus_def split: option.splits)
  ultimately show ?case using Cons by simp
qed

lemma step_v8_ready:
  assumes "ready_v8 d t n w"
  shows "ready_v8 d t n (step i w)"
proof (cases i)
  case (Resize k)
  have "ready_v8 d t n (w\<lparr>innerWidth := k\<rparr>)" using assms by (simp add: ready_v8_def)
  then show ?thesis using Resize dispatchEvent_v8_ready by simp
next
  case Frame
  have "ready_v8 d t n (w\<lparr>frames := []\<rparr>)" using assms by (simp add: ready_v8_def)
  moreover have "set (frames w) \<subseteq> {FocusFirst_v8}" using assms by (simp add: ready_v8_def)
  ultimately show ?thesis using Frame foldl_callback_v8_ready by simp
next
  case OutsideClickTimer
  have "ready_v8 d t n (w\<lparr>pendingOutsideClick := None\<rparr>)" using assms by (simp add: ready_v8_def)
  from handleOutsideClick_v8_ready[OF this] show ?thesis
    using OutsideClickTimer assms by (simp add: report_ev_returns split: option.splits)
next
  case ResizeTimer
  have "ready_v8 d t n (w\<lparr>pendingResize := False\<rparr>)" using assms by (simp add: ready_v8_def)
  from resizeCheck_v8_ready[OF this] show ?thesis
    using ResizeTimer assms by (simp add: report_returns)
qed (use dispatchEvent_v8_ready[OF assms] in simp_all)

lemma run_v8_ready:
  assumes "ready_v8 d t n w"
  shows "ready_v8 d t n (run ins w)"
  using assms unfolding run_def
  by (induction ins arbitrary: w) (simp_all add: step_v8_ready)

lemma reachable_v8_ready:
  assumes "querySelector ''.mobile-menu-toggle'' d = Some t"
    and "querySelector ''#nav-links'' d = Some n"
  shows "ready_v8 d t n (run ins (boot_v8 d))"
  using boot_v8_ready(1)[OF assms] by (rule run_v8_ready)

lemma listeners_on_click_Node_v8:
  assumes "ready_v8 d t n w"
  shows "listeners_on (Node x) ''click'' w =
           (if x = t then [Toggle_v8] else [])
           @ map (\<lambda>_. LinkClick_v8) (filter (\<lambda>l. l = x) (focusableElements w))"
  using assms
  by (simp add: listeners_on_def ready_v8_def listeners_v8_def filter_map comp_def)

lemma listeners_on_v8_other:
  assumes "ready_v8 d t n w"
  shows "listeners_on Document ''click'' w = [DebouncedOutsideClick_v8]"
    "listeners_on Window ''click'' w = []"
    "listeners_on (Node x) ''keydown'' w = []"
    "listeners_on Document ''keydown'' w = [HandleKeydown_v8]"
    "listeners_on Window ''keydown'' w = []"
    "listeners_on Window ''resize'' w = [DebouncedResize_v8]"
  using assms
  by (simp_all add: listeners_on_def ready_v8_def listeners_v8_def filter_map comp_def)

lemma keydown_dispatch_v8:
  assumes "ready_v8 d t n w"
  shows "dispatchEvent (keydown_event k s w) w
           = report_ev (handleKeydown_v8 (keydown_event k s w, w))"
  using listeners_on_v8_other[OF assms]
  by (simp add: dispatchEvent_def keydown_event_def concat_map_Nil)

lemma resize_step_v8:
  assumes "ready_v8 d t n w"
  shows "step (Resize k) w = w\<lparr>innerWidth := k, pendingResize := True\<rparr>"
proof -
  have "ready_v8 d t n (w\<lparr>innerWidth := k\<rparr>)" using assms by (simp add: ready_v8_def)
  from listeners_on_v8_other(6)[OF this] show ?thesis
    by (simp add: dispatchEvent_def resize_event_def debouncedResize_v8_def)
qed

lemma click_dispatch_v8:
  assumes "ready_v8 d t n w"
  shows "dispatchEvent (click_event x) w =
     report_ev (debouncedOutsideClick_v8
       (foldl (\<lambda>s l. report_ev (invoke l s)) (click_event x, w) (node_listeners x w)))"
  using listeners_on_v8_other[OF assms]
  by (simp add: dispatchEvent_def click_event_def node_listeners_def comp_def)

lemma focusable_inside_v8:
  assumes "ready_v8 d t n w" "l \<in> set (focusableElements w)"
  shows "strict_prefix n l"
  using assms by (simp add: ready_v8_def)

lemma node_listeners_v8_outside:
  assumes "ready_v8 d t n w" "\<not> contains t x" "\<not> contains n x"
  shows "node_listeners x w = []"
  unfolding node_listeners_def
proof (rule concat_map_Nil)
  fix a assume "a \<in> set (rev (prefixes x))"
  then have a: "prefix a x" by simp
  with assms(2) have "a \<noteq> t" by (auto simp add: contains_def)
  moreover have "filter (\<lambda>l. l = a) (focusableElements w) = []"
  proof (rule ccontr)
    assume "filter (\<lambda>l. l = a) (focusableElements w) \<noteq> []"
    then have "a \<in> set (focusableElements w)"
      by (metis (mono_tags, lifting) filter_False)
    then have "strict_prefix n a" using focusable_inside_v8[OF assms(1)] by simp
    with a have "prefix n x" by (meson prefix_order.less_imp_le prefix_order.trans)
    with assms(3) show False by (simp add: contains_def)
  qed
  ultimately show "listeners_on (Node a) ''click'' w = []"
    by (simp add: listeners_on_click_Node_v8[OF assms(1)])
qed

lemma node_listeners_v8_link:
  assumes "ready_v8 d t n w" "\<not> contains t x" "l \<in> set (focusableElements w)" "contains l x"
  shows "set (node_listeners x w) = {LinkClick_v8}"
proof -
  have "k = LinkClick_v8" if "prefix a x" "k \<in> set (listeners_on (Node a) ''click'' w)" for a k
    using that assms(2) by (auto simp add: listeners_on_click_Node_v8[OF assms(1)] contains_def)
  then have "set (node_listeners x w) \<subseteq> {LinkClick_v8}"
    unfolding node_listeners_def by auto
  moreover have "LinkClick_v8 \<in> set (listeners_on (Node l) ''click'' w)"
    using assms(3) by (auto simp add: listeners_on_click_Node_v8[OF assms(1)] )
  then have "LinkClick_v8 \<in> set (node_listeners x w)"
    unfolding node_listeners_def using assms(4) by (auto simp add: contains_def)
  ultimately show ?thesis by auto
qed

lemma closed_fold_id_v8:
  assumes "\<not> isOpen w" "set ls \<subseteq> {LinkClick_v8}"
  shows "foldl (\<lambda>s l. report_ev (invoke l s)) (ev, w) ls = (ev, w)"
  using assms(2)
proof (induction ls)
  case Nil
  then show ?case by simp
next
  case (Cons l ls)
  then have "report_ev (invoke l (ev, w)) = (ev, w)"
    using assms(1) by (auto simp add: linkClick_v8_def)
  with Cons show ?case by simp
qed

lemma link_fold_v8:
  assumes "ready_v8 d t n w" "isOpen w" "set ls = {LinkClick_v8}"
  shows "foldl (\<lambda>s l. report_ev (invoke l s)) (ev, w) ls = (ev, state_of (close_v8 w))"
proof (cases ls)
  case Nil
  with assms(3) show ?thesis by simp
next
  case (Cons l ls')
  with assms(3) have l: "l = LinkClick_v8" and rest: "set ls' \<subseteq> {LinkClick_v8}" by auto
  have "report_ev (invoke l (ev, w)) = (ev, state_of (close_v8 w))"
    using l assms(2) close_v8_ready(2)[OF assms(1)]
    by (simp add: linkClick_v8_def report_ev_returns)
  then show ?thesis
    using Cons closed_fold_id_v8[OF close_v8_ready(3)[OF assms(1)] rest] by simp
qed

lemma click_link_v8:
  assumes "ready_v8 d t n w" "\<not> contains t x"
    "l \<in> set (focusableElements w)" "contains l x"
  shows "step (Click x) w =
     (if isOpen w then state_of (close_v8 w) else w)\<lparr>pendingOutsideClick := Some (click_event x)\<rparr>"
proof (cases "isOpen w")
  case True
  from link_fold_v8[OF assms(1) True node_listeners_v8_link[OF assms]] show ?thesis
    using True by (simp add: click_dispatch_v8[OF assms(1)] debouncedOutsideClick_v8_def)
next
  case False
  have "set (node_listeners x w) \<subseteq> {LinkClick_v8}"
    using node_listeners_v8_link[OF assms] by simp
  from closed_fold_id_v8[OF False this] show ?thesis
    using False by (simp add: click_dispatch_v8[OF assms(1)] debouncedOutsideClick_v8_def)
qed

lemma click_outside_v8:
  assumes "ready_v8 d t n w" "\<not> contains t x" "\<not> contains n x"
  shows "step (Click x) w = w\<lparr>pendingOutsideClick := Some (click_event x)\<rparr>"
  by (simp add: click_dispatch_v8[OF assms(1)] node_listeners_v8_outside[OF assms]
      debouncedOutsideClick_v8_def)

lemma outside_timer_v8:
  assumes "ready_v8 d t n w" "pendingOutsideClick w = Some (click_event x)"
    "\<not> contains t x" "\<not> contains n x"
  shows "step OutsideClickTimer w =
     (if isOpen w then state_of (close_v8 (w\<lparr>pendingOutsideClick := None\<rparr>))
      else w\<lparr>pendingOutsideClick := None\<rparr>)"
proof -
  have r: "ready_v8 d t n (w\<lparr>pendingOutsideClick := None\<rparr>)"
    using assms(1) by (simp add: ready_v8_def)
  show ?thesis
    using assms close_v8_ready(2)[OF r]
    by (auto simp add: handleOutsideClick_v8_def ready_v8_def contains_target_def click_event_def
        report_ev_returns)
qed

lemma escape_v8:
  assumes "ready_v8 d t n w"
  shows "step (KeyDown ''Escape'' shift) w = (if isOpen w then state_of (close_v8 w) else w)"
  using close_v8_ready(2)[OF assms]
  by (simp add: keydown_dispatch_v8[OF assms] handleKeydown_v8_def report_ev_returns)

lemma resize_timer_v8:
  assumes "ready_v8 d t n w" "pendingResize w"
  shows "step ResizeTimer w =
     (if innerWidth w > 768 \<and> isOpen w then state_of (close_v8 (w\<lparr>pendingResize := False\<rparr>))
      else w\<lparr>pendingResize := False\<rparr>)"
proof -
  have r: "ready_v8 d t n (w\<lparr>pendingResize := False\<rparr>)"
    using assms(1) by (simp add: ready_v8_def)
  show ?thesis
    using assms(2) close_v8_ready(2)[OF r]
    by (simp add: resizeCheck_v8_def report_returns)
qed


section \<open>Close triggers on a closed panel, resizing\<close>

lemma resize_step:
  assumes "ready d t n w"
  shows "step (Resize k) w =
     (if k > 768 \<and> isOpen w then state_of (closeMenu (w\<lparr>innerWidth := k\<rparr>))
      else w\<lparr>innerWidth := k\<rparr>)"
proof -
  have r: "ready d t n (w\<lparr>innerWidth := k\<rparr>)" using assms by (rule ready_innerWidth)
  show ?thesis
    using closeMenu_ready(2)[OF r]
    by (simp add: resize_dispatch[OF r] handleResize_def report_returns)
qed

lemma timer_closed_v8:
  assumes "\<not> isOpen w"
  shows "step OutsideClickTimer w = w\<lparr>pendingOutsideClick := None\<rparr>"
  using assms by (simp add: handleOutsideClick_v8_def split: option.splits)

lemma ready_v8_focusables:
  "ready_v8 d t n w \<Longrightarrow>
     focusableElements w = querySelectorAll_in n ''a[href], button:not([disabled])'' d"
  by (simp add: ready_v8_def querySelectorAll_in_def)

lemma focused_page_found:
  "querySelector ''.mobile-menu-toggle'' focused_page = Some [1,0,0]"
  "querySelector ''#nav-links'' focused_page = Some [1,0,1]"
  by (simp_all add: focused_page_def example_page_def querySelector_def)

lemma example_opened:
  "isOpen (run [Click [1,0,0]] (boot example_page))"
  "isOpen (run [Click [1,0,0]] (boot_v8 example_page))"
  by code_simp+



section \<open>Independence from the attributes and classes; the script built from functions\<close>



lemma snd_report_keep [simp]: "snd (report_ev (keep_event ev r)) = report r"
  by (cases r) simp_all

lemma fst_report_keep [simp]: "fst (report_ev (keep_event ev r)) = ev"
  by (cases r) simp_all


lemma agree_refl: "agree w w"
  by (simp add: agree_def)

lemma agree_uncaught: "agree w w' \<Longrightarrow> agree (w\<lparr>uncaught := u\<rparr>) (w'\<lparr>uncaught := u\<rparr>)"
  by (simp add: agree_def)


















lemma no_listeners_dispatch:
  assumes "\<forall>r \<in> set (listeners w). fst (snd r) \<noteq> etype ev"
  shows "dispatchEvent ev w = (ev, w)"
proof -
  have "listeners_on tg (etype ev) w = []" for tg
    using assms by (auto simp add: listeners_on_def filter_empty_conv)
  then have nl: "concat (map (\<lambda>tg. listeners_on tg (etype ev) w) (propagation_path (target ev))) = []"
    by (intro concat_map_Nil) simp
  show ?thesis unfolding dispatchEvent_def nl by simp
qed




section \<open>A page without trigger or panel\<close>

lemma inert_step:
  assumes "inert w"
  shows "step i w = (case i of Resize k \<Rightarrow> w\<lparr>innerWidth := k\<rparr> | _ \<Rightarrow> w)"
proof (cases i)
  case (Click x)
  have "dispatchEvent (click_event x) w = (click_event x, w)"
    using assms by (intro no_listeners_dispatch) (simp add: inert_def)
  then show ?thesis using Click by simp
next
  case (KeyDown k s)
  have "dispatchEvent (keydown_event k s w) w = (keydown_event k s w, w)"
    using assms by (intro no_listeners_dispatch) (simp add: inert_def)
  then show ?thesis using KeyDown by simp
next
  case (Resize k)
  have "dispatchEvent resize_event (w\<lparr>innerWidth := k\<rparr>) = (resize_event, w\<lparr>innerWidth := k\<rparr>)"
    using assms by (intro no_listeners_dispatch) (simp add: inert_def)
  then show ?thesis using Resize by simp
next
  case Frame
  then show ?thesis using assms by (simp add: inert_def)
next
  case OutsideClickTimer
  then show ?thesis using assms by (simp add: inert_def)
next
  case ResizeTimer
  then show ?thesis using assms by (simp add: inert_def)
qed

lemma inert_run:
  assumes "inert w"
  shows "(run ins w)\<lparr>innerWidth := innerWidth w\<rparr> = w"
  using assms
proof (induction ins arbitrary: w)
  case Nil
  then show ?case by (simp add: run_def)
next
  case (Cons i ins)
  have r: "run (i # ins) w = run ins (step i w)" by (simp add: run_def)
  show ?case
  proof (cases i)
    case (Resize k)
    then have s: "step i w = w\<lparr>innerWidth := k\<rparr>" using inert_step[OF Cons.prems, of i] by simp
    have "inert (w\<lparr>innerWidth := k\<rparr>)" using Cons.prems by (simp add: inert_def)
    from Cons.IH[OF this]
    have "(run ins (w\<lparr>innerWidth := k\<rparr>))\<lparr>innerWidth := k\<rparr> = w\<lparr>innerWidth := k\<rparr>"
      by simp
    then have "((run ins (w\<lparr>innerWidth := k\<rparr>))\<lparr>innerWidth := k\<rparr>)\<lparr>innerWidth := innerWidth w\<rparr>
            = (w\<lparr>innerWidth := k\<rparr>)\<lparr>innerWidth := innerWidth w\<rparr>"
      by (rule arg_cong)
    then show ?thesis unfolding r s by simp
  qed (use inert_step[OF Cons.prems, of i] Cons.IH[OF Cons.prems] r in simp_all)
qed

lemma init_v2_missing:
  assumes "querySelector ''.mobile-menu-toggle'' w = None \<or> querySelector ''#nav-links'' w = None"
  shows "init_v2 w = Returns (w\<lparr>toggleButton := querySelector ''.mobile-menu-toggle'' w,
                  navContainer := querySelector ''#nav-links'' w\<rparr>)"
  using assms by (auto simp add: init_v2_def Let_def querySelector_def split: option.splits list.splits)

lemma inert_fresh_update:
  "inert ((fresh d)\<lparr>toggleButton := a, navContainer := b, elBody := c\<rparr>)"
  "inert ((fresh d)\<lparr>toggleButton := a, navContainer := b\<rparr>)"
  by (simp_all add: inert_def)

lemma startup_Cons_returns:
  "returns (f w) \<Longrightarrow> startup (f # fs) w = startup fs (report (f w))"
  by (cases "f w") simp_all

lemma trigger_only_page_missing:
  "querySelector ''.mobile-menu-toggle'' trigger_only_page = Some [1,0,0]"
  "querySelector ''#nav-links'' trigger_only_page = None"
  by (simp_all add: trigger_only_page_def example_page_def querySelector_def)


section \<open>The focus after opening\<close>

lemma frames_fold_v6:
  assumes "set cbs \<subseteq> {FocusFirstFocusable}" "cbs \<noteq> []"
  shows "foldl (\<lambda>v cb. report (callback cb v)) w cbs
       = (case firstFocusable w of None \<Rightarrow> w | Some f \<Rightarrow> focus f w)"
  using assms
proof (induction cbs arbitrary: w)
  case Nil
  then show ?case by simp
next
  case (Cons cb cbs)
  then have cb: "cb = FocusFirstFocusable" by simp
  show ?case
  proof (cases "cbs = []")
    case True
    then show ?thesis using cb by (simp add: focusFirstFocusable_def split: option.splits)
  next
    case False
    have twice: "focus f (focus f w) = focus f w" for f
      by (simp add: focus_def can_focus_def)
    show ?thesis
      using Cons.IH[of "report (callback cb w)"] Cons.prems(1) cb False
      by (simp add: focusFirstFocusable_def twice split: option.splits)
  qed
qed

lemma open_click_v6:
  assumes "ready d t n w" "\<not> isOpen w" "contains t x" "\<not> contains n x"
  shows "step (Click x) w =
     requestAnimationFrame FocusFirstFocusable
       (setAttribute n ''aria-hidden'' ''false''
         (setAttribute t ''aria-expanded'' ''true''
           (classList_add (body w) ''mobile-nav-open'' (w\<lparr>isOpen := True\<rparr>))))"
proof -
  have "openMenu w = Returns (requestAnimationFrame FocusFirstFocusable
       (setAttribute n ''aria-hidden'' ''false''
         (setAttribute t ''aria-expanded'' ''true''
           (classList_add (body w) ''mobile-nav-open'' (w\<lparr>isOpen := True\<rparr>)))))"
    using assms(1) by (intro openMenu_Some) (simp_all add: ready_def)
  then show ?thesis
    using assms(2) by (simp add: click_trigger[OF assms(1,3,4)] toggleMenu_def del: step.simps)
qed

lemma frame_after_open_v6:
  assumes "ready d t n w" "\<not> isOpen w" "contains t x" "\<not> contains n x"
  shows "step Frame (step (Click x) w)
      = (case item (focusableElements w) 0 of None \<Rightarrow> (step (Click x) w)\<lparr>frames := []\<rparr>
         | Some f \<Rightarrow> focus f ((step (Click x) w)\<lparr>frames := []\<rparr>))"
proof -
  note o = open_click_v6[OF assms]
  have fr: "frames (step (Click x) w) = frames w @ [FocusFirstFocusable]"
    unfolding o by (simp add: requestAnimationFrame_def setAttribute_def classList_add_def)
  have ff: "firstFocusable (step (Click x) w) = item (focusableElements w) 0"
    unfolding o using assms(1)
    by (simp add: requestAnimationFrame_def setAttribute_def classList_add_def ready_def)
  have r': "ready d t n (step (Click x) w)" using assms(1) by (rule step_ready)
  show ?thesis
    using frames_fold_v6[of "frames (step (Click x) w)" "(step (Click x) w)\<lparr>frames := []\<rparr>"]
      r' fr ff
    by (simp add: ready_def del: step.simps(1))
qed

lemma open_click_pro:
  assumes "ready_pro d t n p" "\<not> classList_contains (body p) ''mobile-nav-open'' p"
    "contains t x" "focusableElements p \<noteq> []"
  shows "step (Click x) p =
     focus (hd (focusableElements p))
       (setStyle (body p) ''overflow'' ''hidden''
         (setAttribute t ''aria-expanded'' ''true''
           (classList_add (body p) ''mobile-nav-open'' p)))"
proof -
  have "firstFocusable p = Some (hd (focusableElements p))"
    using assms(1,4) by (simp add: ready_pro_def item_hd_last)
  then have "toggleMenu_pro p = Returns (focus (hd (focusableElements p))
       (setStyle (body p) ''overflow'' ''hidden''
         (setAttribute t ''aria-expanded'' ''true''
           (classList_add (body p) ''mobile-nav-open'' p))))"
    using assms(1,2)
    by (simp add: toggleMenu_pro_def classList_toggle_def ready_pro_def Let_def String_def
        classList_add_def setAttribute_def setStyle_def)
  then show ?thesis
    using assms(3) by (simp add: click_dispatch_pro[OF assms(1)] del: step.simps)
qed


section \<open>The loader: positions and replacement\<close>

lemma find_id_node_at:
  "find_id i n = Some p \<Longrightarrow> \<exists>t a cs. node_at p n = Some (Element t a cs) \<and> map_of a ''id'' = Some i"
  "find_id_list i k ns = Some p \<Longrightarrow>
     \<exists>j q t a cs. p = j # q \<and> k \<le> j \<and> j - k < length ns \<and>
        node_at q (ns ! (j - k)) = Some (Element t a cs) \<and> map_of a ''id'' = Some i"
proof (induction i n and i k ns arbitrary: p and p rule: find_id_find_id_list.induct)
  case (1 i s)
  then show ?case by simp
next
  case (2 i s)
  then show ?case by simp
next
  case (3 i t a cs)
  show ?case
  proof (cases "map_of a ''id'' = Some i")
    case True
    with 3 show ?thesis by auto
  next
    case False
    with 3(2) have "find_id_list i 0 cs = Some p" by simp
    from 3(1)[OF False this] show ?thesis by auto
  qed
next
  case (4 i k)
  then show ?case by simp
next
  case (5 i k c cs)
  show ?case
  proof (cases "find_id i c")
    case None
    with 5(3) have "find_id_list i (Suc k) cs = Some p" by simp
    from 5(2)[OF None this] obtain j q t a cs' where
      "p = j # q" "Suc k \<le> j" "j - Suc k < length cs"
      "node_at q (cs ! (j - Suc k)) = Some (Element t a cs')" "map_of a ''id'' = Some i" by blast
    then show ?thesis
      by (intro exI[of _ j] exI[of _ q] exI[of _ t] exI[of _ a] exI[of _ cs'])
         (auto simp add: Suc_diff_le nth_Cons')
  next
    case (Some q)
    with 5(3) have "p = k # q" by simp
    with 5(1)[OF Some] show ?thesis by auto
  qed
qed

lemma nth_replaced: "j < length cs \<Longrightarrow> (take j cs @ m # drop (Suc j) cs) ! j = m"
  by (simp add: nth_append)

lemma update_at_replace:
  assumes "node_at q n = Some (Element t a cs)" "k < length cs"
  shows "\<exists>m. update_at (q @ [k]) (\<lambda>_. ns) n = [m] \<and>
             node_at q m = Some (Element t a (take k cs @ ns @ drop (Suc k) cs))"
  using assms
proof (induction q arbitrary: n)
  case Nil
  then show ?case by simp
next
  case (Cons j q)
  then obtain t' a' cs' where d: "n = Element t' a' cs'" and j: "j < length cs'"
    and at: "node_at q (cs' ! j) = Some (Element t a cs)"
    by (cases n) (auto split: if_splits)
  from Cons.IH[OF at Cons.prems(2)] obtain m where
    m: "update_at (q @ [k]) (\<lambda>_. ns) (cs' ! j) = [m]"
    "node_at q m = Some (Element t a (take k cs @ ns @ drop (Suc k) cs))" by blast
  show ?case using d j m by (auto simp add: nth_replaced)
qed

lemma update_at_inner:
  assumes "node_at p n = Some x"
  shows "\<exists>m. update_at p (\<lambda>y. [with_children (g y) y]) n = [m] \<and>
             node_at p m = Some (with_children (g x) x)"
  using assms
proof (induction p arbitrary: n)
  case Nil
  then show ?case by simp
next
  case (Cons j p)
  then obtain t' a' cs' where d: "n = Element t' a' cs'" and j: "j < length cs'"
    and at: "node_at p (cs' ! j) = Some x"
    by (cases n) (auto split: if_splits)
  from Cons.IH[OF at] obtain m where
    m: "update_at p (\<lambda>y. [with_children (g y) y]) (cs' ! j) = [m]"
    "node_at p m = Some (with_children (g x) x)" by blast
  show ?case using d j m by (auto simp add: nth_replaced)
qed

lemma node_at_replace:
  assumes "node_at q doc = Some (Element t a cs)" "k < length cs"
  shows "node_at q (replace_node (q @ [k]) ns doc)
           = Some (Element t a (take k cs @ ns @ drop (Suc k) cs))"
  using update_at_replace[OF assms, of ns] by (auto simp add: replace_node_def)

lemma node_at_set_innerHTML:
  assumes "node_at p doc = Some (Element t a cs)"
  shows "node_at p (set_innerHTML parse p markup doc)
           = Some (Element t a (parse (Element t a cs) markup))"
  using update_at_inner[OF assms, of "\<lambda>n. parse n markup"] by (auto simp add: set_innerHTML_def)

lemma node_at_parent:
  "node_at (q @ [k]) n = Some x \<Longrightarrow>
     \<exists>t a cs. node_at q n = Some (Element t a cs) \<and> k < length cs \<and> cs ! k = x"
proof (induction q arbitrary: n)
  case Nil
  then show ?case by (cases n) (auto split: if_splits)
next
  case (Cons j q)
  then show ?case by (cases n) (auto split: if_splits)
qed

lemma getElementById_parent:
  assumes "getElementById i doc = Some (q @ [k])" "node_at q doc = Some (Element t a cs)"
  shows "k < length cs"
proof -
  from find_id_node_at(1)[of i doc "q @ [k]"] assms(1)
  obtain x where "node_at (q @ [k]) doc = Some x"
    by (auto simp add: getElementById_def split: if_splits)
  from node_at_parent[OF this] assms(2) show ?thesis by auto
qed

lemma set_outerHTML_child:
  assumes "node_at q doc = Some (Element t a cs)" "k < length cs"
  shows "\<exists>doc'. set_outerHTML parse (q @ [k]) markup doc = Returns doc' \<and>
     node_at q doc' = Some (Element t a (take k cs @ parse (Element t a cs) markup @ drop (Suc k) cs))"
  using node_at_replace[OF assms] assms(1) by (simp add: set_outerHTML_def)

lemma returns_set_outerHTML_cases:
  "(\<exists>doc'. set_outerHTML parse p markup doc = Returns doc') \<or>
   set_outerHTML parse p markup doc = Throws NoModificationAllowedError doc"
  by (simp add: set_outerHTML_def split: option.splits)

lemma retrieve_v6_failed:
  "cache s url = None \<Longrightarrow> retrieval_failed (fetch url) \<Longrightarrow> \<exists>e. retrieve_v6 fetch url s = Inl e"
  by (cases "fetch url" rule: retrieval_failed.cases) (auto simp add: retrieve_v6_def)

lemma fetchAndInject_v5_failed:
  "getElementById i doc = Some p \<Longrightarrow> retrieval_failed (fetch url) \<Longrightarrow>
     fetchAndInject_v5 parse fetch url i doc
       = Returns (set_innerHTML parse p (fallback_markup_v5 url) doc)"
  by (cases "fetch url" rule: retrieval_failed.cases) (auto simp add: fetchAndInject_v5_def)

lemma placeholder_page_facts:
  "getElementById ''header-placeholder'' placeholder_page = Some ([1] @ [0])"
  "getElementById ''header-placeholder'' placeholder_page = Some [1,0]"
  "getElementById ''footer-placeholder'' placeholder_page = None"
  "node_at [1] placeholder_page
     = Some (Element ''body'' []
         [Element ''div'' [(''id'', ''header-placeholder'')] [], Element ''main'' [] []])"
  "node_at [1,0] placeholder_page = Some (Element ''div'' [(''id'', ''header-placeholder'')] [])"
  by code_simp+

lemma example_parse_facts:
  "example_parse c ''<header></header><nav></nav>'' = [Element ''header'' [] [], Element ''nav'' [] []]"
  "example_parse c ''Menu'' = [Text ''Menu'']"
  "example_parse c (fallback_markup_v5 ''header.html'')
     = [Element ''p'' [(''style'', ''text-align:center; color:red;'')]
          [Text ''Failed to load component: header.html'']]"
  "example_parse c fallback_markup_v6
     = [Text (indent 20),
        Element ''div'' [(''style'', ''text-align: center; padding: 2rem; color: #999;'')]
          [Text (indent 24), Element ''p'' [] [Text ''Content temporarily unavailable''],
           Text (indent 20)],
        Text (indent 16)]"
  by (simp_all add: example_parse_def fallback_markup_v5_def fallback_markup_v6_def indent_def)


section \<open>Reveal on scroll: the two branches\<close>

lemma foldl_reveal_styles:
  "foldl (\<lambda>v el. setStyle el ''transform'' ''none'' (setStyle el ''opacity'' ''1'' v)) w els
     = w\<lparr>styles := (\<lambda>e. if e \<in> set els
                            then (styles w e)(''opacity'' := ''1'', ''transform'' := ''none'')
                            else styles w e)\<rparr>"
proof (induction els arbitrary: w)
  case Nil
  then show ?case by simp
next
  case (Cons el els)
  show ?case
    unfolding foldl_Cons Cons.IH
    by (auto simp add: setStyle_def fun_eq_iff)
qed

lemma foldl_visible_classes:
  "foldl (\<lambda>v el. classList_add el c v) w els
     = w\<lparr>classes := (\<lambda>e. if e \<in> set els then insert c (classes w e) else classes w e)\<rparr>"
proof (induction els arbitrary: w)
  case Nil
  then show ?case by simp
next
  case (Cons el els)
  show ?case
    unfolding foldl_Cons Cons.IH
    by (auto simp add: classList_add_def fun_eq_iff)
qed

lemma foldl_observe:
  "k < length (observers w) \<Longrightarrow>
   foldl (\<lambda>v el. observe k el v) w els
     = w\<lparr>observers := (observers w)[k := (fst (observers w ! k), snd (observers w ! k) @ els)]\<rparr>"
proof (induction els arbitrary: w)
  case Nil
  then show ?case by simp
next
  case (Cons el els)
  have "k < length (observers (observe k el w))" using Cons.prems by (simp add: observe_def)
  from Cons.IH[OF this] show ?case using Cons.prems by (simp add: observe_def)
qed

lemma full_motion_registers_observer:
  assumes "\<not> prefersReducedMotion w"
  shows "observers (createScrollReveal w)
           = observers w @ [(RevealObserver, querySelectorAll reveal_selector w)]"
    "querySelectorAll ''.fade-in-up'' w \<noteq> [] \<Longrightarrow>
     observers (scrollAnimator_init w)
           = observers w @ [(AnimatorObserver, querySelectorAll ''.fade-in-up'' w)]"
  using assms
  by (simp_all add: createScrollReveal_def scrollAnimator_init_def Let_def foldl_observe
      querySelectorAll_def)


section \<open>The claims\<close>




text \<open>
  Claim C2 (version 6.0). A page on which \<open>init\<close> found the trigger \<open>t\<close> and the panel
  \<open>n\<close> starts Closed. In every state \<open>w\<close> it can reach: if the panel is Closed, then
  after any sequence of clicks on the trigger (each click lands on the trigger or inside
  it, the trigger not lying inside the panel) \<open>isOpen\<close> is true exactly when the number
  of clicks is odd; an Escape key press leaves \<open>isOpen\<close> false; and a click outside both
  the panel and the trigger leaves \<open>isOpen\<close> false, whatever the state was before.
\<close>

theorem toggle_parity_forced_close:
  assumes "querySelector ''.mobile-menu-toggle'' d = Some t"
    and "querySelector ''#nav-links'' d = Some n"
    and "w = run ins (boot d)"
  shows "(\<not> isOpen (boot d)) \<and>
    ((\<forall>x \<in> set xs. contains t x \<and> \<not> contains n x) \<and> \<not> isOpen w
        \<longrightarrow> isOpen (run (map Click xs) w) = odd (length xs)) \<and>
    \<not> isOpen (step (KeyDown ''Escape'' shift) w) \<and>
    (\<not> contains t y \<and> \<not> contains n y \<longrightarrow> \<not> isOpen (step (Click y) w))"
proof -
  have r: "ready d t n w" using assms by (simp add: reachable_ready)
  have "\<not> isOpen (step (KeyDown ''Escape'' shift) w)"
    using closeMenu_ready(3)[OF r] by (simp add: escape_closes[OF r] del: step.simps)
  moreover have "\<not> isOpen (step (Click y) w)" if "\<not> contains t y" "\<not> contains n y"
    using closeMenu_ready(3)[OF r] by (simp add: click_outside[OF r that] del: step.simps)
  moreover have "isOpen (run (map Click xs) w) = odd (length xs)"
    if "\<forall>x \<in> set xs. contains t x \<and> \<not> contains n x" "\<not> isOpen w"
    using toggle_clicks_parity[OF r that(1)] that(2) by simp
  ultimately show ?thesis using boot_ready(2)[OF assms(1,2)] by blast
qed

theorem toggle_parity_forced_close_witness:
  "querySelector ''.mobile-menu-toggle'' example_page = Some [1,0,0] \<and>
   querySelector ''#nav-links'' example_page = Some [1,0,1] \<and>
   \<not> isOpen (boot example_page) \<and>
   isOpen (run (map Click [[1,0,0],[1,0,0,3],[1,0,0]]) (boot example_page)) \<and>
   \<not> isOpen (step (KeyDown ''Escape'' False) (boot example_page)) \<and>
   \<not> isOpen (step (Click [1,1,0]) (boot example_page))"
  using toggle_parity_forced_close[OF example_page_found, of "boot example_page" "[]"
       "[[1,0,0],[1,0,0,3],[1,0,0]]" False "[1,1,0]"] example_page_found
  by (simp add: contains_def run_def del: step.simps)




text \<open>
  Claim C4 (versions 6.0 and 2.0). On a page that lacks the trigger or the panel,
  \<open>init\<close> returns without throwing and registers no listener. Whatever happens
  afterwards (clicks, also on a trigger that is present alone, key presses, resizes,
  frames, timers) changes nothing but the window width the browser itself records. The
  start-up sequence, which calls \<open>init\<close> and then the \<open>init\<close> functions of the
  sibling modules one after the other, goes on with the siblings.
\<close>

theorem missing_elements_inert:
  assumes "querySelector ''.mobile-menu-toggle'' d = None \<or> querySelector ''#nav-links'' d = None"
  shows
    "returns (init (fresh d)) \<and> returns (init_v2 (fresh d)) \<and>
     listeners (boot d) = [] \<and> listeners (boot_v2 d) = [] \<and>
     (run ins (boot d))\<lparr>innerWidth := innerWidth (boot d)\<rparr> = boot d \<and>
     (run ins (boot_v2 d))\<lparr>innerWidth := innerWidth (boot_v2 d)\<rparr> = boot_v2 d \<and>
     step (Click x) (boot d) = boot d \<and> step (Click x) (boot_v2 d) = boot_v2 d \<and>
     startup (init # siblings) (fresh d) = startup siblings (boot d) \<and>
     startup (init_v2 # siblings) (fresh d) = startup siblings (boot_v2 d)"
proof -
  have m: "querySelector ''.mobile-menu-toggle'' (fresh d) = None
           \<or> querySelector ''#nav-links'' (fresh d) = None"
    using assms by simp
  have r: "returns (init (fresh d))" "returns (init_v2 (fresh d))"
    by (simp_all add: init_missing[OF m] init_v2_missing[OF m])
  have i: "inert (boot d)" "inert (boot_v2 d)"
    by (simp_all add: boot_def boot_v2_def init_missing[OF m] init_v2_missing[OF m]
        inert_fresh_update)
  have c: "step (Click x) (boot d) = boot d" "step (Click x) (boot_v2 d) = boot_v2 d"
    using inert_step[OF i(1), of "Click x"] inert_step[OF i(2), of "Click x"] by simp_all
  have s: "startup (init # siblings) (fresh d) = startup siblings (boot d)"
    "startup (init_v2 # siblings) (fresh d) = startup siblings (boot_v2 d)"
    unfolding boot_def boot_v2_def using r by (simp_all only: startup_Cons_returns)
  show ?thesis
    using r i c s inert_run[OF i(1), of ins] inert_run[OF i(2), of ins]
    by (simp add: inert_def del: step.simps)
qed

theorem missing_elements_inert_witness:
  "querySelector ''.mobile-menu-toggle'' trigger_only_page = Some [1,0,0] \<and>
   querySelector ''#nav-links'' trigger_only_page = None \<and>
   returns (init (fresh trigger_only_page)) \<and>
   step (Click [1,0,0]) (boot trigger_only_page) = boot trigger_only_page \<and>
   step (Click [1,0,0]) (boot_v2 trigger_only_page) = boot_v2 trigger_only_page \<and>
   (run [Click [1,0,0], KeyDown ''Escape'' False, Resize 1024, Frame] (boot trigger_only_page))
      \<lparr>innerWidth := innerWidth (boot trigger_only_page)\<rparr> = boot trigger_only_page \<and>
   startup [init, Returns] (fresh trigger_only_page) = startup [Returns] (boot trigger_only_page)"
proof -
  have m: "querySelector ''.mobile-menu-toggle'' trigger_only_page = None
           \<or> querySelector ''#nav-links'' trigger_only_page = None"
    using trigger_only_page_missing by simp
  from missing_elements_inert[OF m, of "[Click [1,0,0], KeyDown ''Escape'' False, Resize 1024, Frame]" "[1,0,0]"
      "[Returns]"]
  show ?thesis using trigger_only_page_missing by blast
qed

text \<open>
  Claim C5 (versions 6.0 and 8.0). \<open>w\<close> (version 6.0) and \<open>v\<close> (version 8.0) are
  states the page can reach. While the panel is Closed, every close trigger leaves the
  whole state as it is, \<open>isOpen\<close>, the classes, the attributes and the focused
  element: an Escape key press, a click outside the panel and the trigger, a click on a
  link of the panel, and a resize, which only records the new width. In version 8.0 the
  click and the resize go through a debounced call, whose timer leaves nothing pending
  when it fires.
\<close>

theorem close_triggers_guarded:
  assumes "querySelector ''.mobile-menu-toggle'' d = Some t"
    and "querySelector ''#nav-links'' d = Some n"
    and "w = run ins (boot d)" and "v = run ins' (boot_v8 d)"
  shows
    "(\<not> isOpen w \<longrightarrow>
        step (KeyDown ''Escape'' shift) w = w \<and>
        (\<not> contains t y \<and> \<not> contains n y \<longrightarrow> step (Click y) w = w) \<and>
        (l \<in> set (querySelectorAll_in n focusable_selector d) \<and> contains l x \<and> \<not> contains t x
           \<longrightarrow> step (Click x) w = w) \<and>
        step (Resize k) w = w\<lparr>innerWidth := k\<rparr>) \<and>
     (\<not> isOpen v \<longrightarrow>
        step (KeyDown ''Escape'' shift) v = v \<and>
        (\<not> contains t y \<and> \<not> contains n y \<longrightarrow>
           step OutsideClickTimer (step (Click y) v) = v\<lparr>pendingOutsideClick := None\<rparr>) \<and>
        (l' \<in> set (querySelectorAll_in n ''a[href], button:not([disabled])'' d)
           \<and> contains l' x \<and> \<not> contains t x \<longrightarrow>
           step OutsideClickTimer (step (Click x) v) = v\<lparr>pendingOutsideClick := None\<rparr>) \<and>
        step ResizeTimer (step (Resize k) v) = v\<lparr>innerWidth := k, pendingResize := False\<rparr>)"
proof -
  have r: "ready d t n w" using assms(1-3) by (simp add: reachable_ready)
  have r8: "ready_v8 d t n v" using assms(1,2,4) by (simp add: reachable_v8_ready)
  have 1: "step (KeyDown ''Escape'' shift) w = w" if "\<not> isOpen w"
    using that by (simp add: escape_closes[OF r] del: step.simps)
  have 2: "step (Click y) w = w" if "\<not> isOpen w" "\<not> contains t y" "\<not> contains n y"
    using that(1) by (simp add: click_outside[OF r that(2,3)] del: step.simps)
  have 3: "step (Click x) w = w"
    if "\<not> isOpen w" "l \<in> set (querySelectorAll_in n focusable_selector d)" "contains l x"
      "\<not> contains t x"
  proof -
    have "l \<in> set (focusableElements w)" using that(2) by (simp add: ready_focusables[OF r])
    from click_link_closed[OF r that(1,4) this that(3)] show ?thesis .
  qed
  have 4: "step (Resize k) w = w\<lparr>innerWidth := k\<rparr>" if "\<not> isOpen w"
    using that by (simp add: resize_step[OF r] del: step.simps)
  have 6: "step (KeyDown ''Escape'' shift) v = v" if "\<not> isOpen v"
    using that by (simp add: escape_v8[OF r8] del: step.simps)
  have 7: "step OutsideClickTimer (step (Click y) v) = v\<lparr>pendingOutsideClick := None\<rparr>"
    if "\<not> isOpen v" "\<not> contains t y" "\<not> contains n y"
    using that(1) by (simp add: click_outside_v8[OF r8 that(2,3)] timer_closed_v8 del: step.simps)
  have 8: "step OutsideClickTimer (step (Click x) v) = v\<lparr>pendingOutsideClick := None\<rparr>"
    if "\<not> isOpen v" "l' \<in> set (querySelectorAll_in n ''a[href], button:not([disabled])'' d)"
      "contains l' x" "\<not> contains t x"
  proof -
    have "l' \<in> set (focusableElements v)" using that(2) by (simp add: ready_v8_focusables[OF r8])
    from click_link_v8[OF r8 that(4) this that(3)] show ?thesis
      using that(1) by (simp add: timer_closed_v8 del: step.simps)
  qed
  have r8': "ready_v8 d t n (step (Resize k) v)" using r8 by (rule step_v8_ready)
  have 9: "step ResizeTimer (step (Resize k) v) = v\<lparr>innerWidth := k, pendingResize := False\<rparr>"
    if "\<not> isOpen v"
    using that resize_timer_v8[OF r8'] by (simp add: resize_step_v8[OF r8] del: step.simps)
  show ?thesis using 1 2 3 4 6 7 8 9 by blast
qed

theorem close_triggers_guarded_witness:
  "querySelector ''.mobile-menu-toggle'' focused_page = Some [1,0,0] \<and>
   querySelector ''#nav-links'' focused_page = Some [1,0,1] \<and>
   \<not> isOpen (run [] (boot focused_page)) \<and> \<not> isOpen (run [] (boot_v8 focused_page)) \<and>
   \<not> contains [1,0,0] [1,1,0] \<and> \<not> contains [1,0,1] [1,1,0] \<and>
   [1,0,1,1] \<in> set (querySelectorAll_in [1,0,1] focusable_selector focused_page) \<and>
   contains [1,0,1,1] [1,0,1,1] \<and> \<not> contains [1,0,0] [1,0,1,1] \<and>
   step (KeyDown ''Escape'' False) (run [] (boot focused_page)) = run [] (boot focused_page) \<and>
   step (Click [1,1,0]) (run [] (boot focused_page)) = run [] (boot focused_page) \<and>
   step (Click [1,0,1,1]) (run [] (boot focused_page)) = run [] (boot focused_page) \<and>
   step (Resize 1024) (run [] (boot focused_page))
     = (run [] (boot focused_page))\<lparr>innerWidth := 1024\<rparr> \<and>
   step (KeyDown ''Escape'' False) (run [] (boot_v8 focused_page)) = run [] (boot_v8 focused_page) \<and>
   step OutsideClickTimer (step (Click [1,1,0]) (run [] (boot_v8 focused_page)))
     = (run [] (boot_v8 focused_page))\<lparr>pendingOutsideClick := None\<rparr>"
proof -
  have l: "[1,0,1,1] \<in> set (querySelectorAll_in [1,0,1] focusable_selector focused_page)"
    by code_simp
  have c: "\<not> contains [1,0,0] [1,1,0]" "\<not> contains [1,0,1] [1,1,0]"
    "contains [1,0,1,1] [1,0,1,1]" "\<not> contains [1,0,0] [1,0,1,1]"
    by (simp_all add: contains_def)
  have o: "\<not> isOpen (run [] (boot focused_page))" "\<not> isOpen (run [] (boot_v8 focused_page))"
    using boot_ready(2)[OF focused_page_found] boot_v8_ready(2)[OF focused_page_found]
    by (simp_all add: run_def)
  from close_triggers_guarded[OF focused_page_found refl refl,
      of "[]" False "[1,1,0]" "[1,0,1,1]" "[1,0,1,1]" 1024 "[]"]
  show ?thesis
    using focused_page_found l c o by blast
qed

text \<open>
  Claim C6, as stated, fails on the Professional Edition 1.0: its \<open>toggleMenu\<close> calls
  \<open>this.firstFocusable.focus()\<close> inside the click handler. Right after the click, with
  no frame in between and nothing queued, the focus is on the first link of the panel.
\<close>

theorem focus_immediate_in_pro:
  "activeElement (boot_pro example_page) = None \<and>
   activeElement (step (Click [1,0,0]) (boot_pro example_page)) = Some [1,0,1,0] \<and>
   frames (step (Click [1,0,0]) (boot_pro example_page)) = []"
  by code_simp

text \<open>
  Claim C6, amended. A click on the trigger (the trigger not lying inside the panel)
  arrives in a reachable state; \<open>fs\<close> and \<open>gs\<close> are the focusable elements of the
  panel the two revisions collect. Version 6.0, panel Closed: after the click the panel
  is Open, the focus is where it was, and one more callback is queued for the next
  frame; once that frame has run, the focus is on the first element of \<open>fs\<close> if the
  browser lets that element take the focus in the state the click has left, and where it
  was if \<open>fs\<close> is empty. Professional Edition 1.0, body without the open class and
  \<open>gs\<close> not empty: after the click the body has the class, nothing is queued, and
  the focus is already on the first element of \<open>gs\<close> if the browser lets that element
  take the focus in the state the click has left.
\<close>

theorem focus_after_open:
  assumes "querySelector ''.mobile-menu-toggle'' d = Some t"
    and "querySelector ''#nav-links'' d = Some n"
    and "contains t x" and "\<not> contains n x"
    and "w = run ins (boot d)" and "fs = querySelectorAll_in n focusable_selector d"
    and "p = run ins' (boot_pro d)" and "gs = querySelectorAll_in n ''a[href], button'' d"
  shows
    "(\<not> isOpen w \<longrightarrow>
        isOpen (step (Click x) w) \<and>
        activeElement (step (Click x) w) = activeElement w \<and>
        frames (step (Click x) w) = frames w @ [FocusFirstFocusable] \<and>
        (fs \<noteq> [] \<and> can_focus (hd fs) (step (Click x) w) \<longrightarrow>
           activeElement (step Frame (step (Click x) w)) = Some (hd fs)) \<and>
        (fs = [] \<longrightarrow> activeElement (step Frame (step (Click x) w)) = activeElement w)) \<and>
     (\<not> classList_contains (body p) ''mobile-nav-open'' p \<and> gs \<noteq> [] \<longrightarrow>
        classList_contains (body p) ''mobile-nav-open'' (step (Click x) p) \<and>
        frames (step (Click x) p) = [] \<and>
        (can_focus (hd gs) (step (Click x) p) \<longrightarrow>
           activeElement (step (Click x) p) = Some (hd gs)))"
proof -
  have r: "ready d t n w" using assms(1,2,5) by (simp add: reachable_ready)
  have rp: "ready_pro d t n p" using assms(1,2,7) by (simp add: reachable_pro_ready)
  have f: "focusableElements w = fs" using r assms(6) by (simp add: ready_focusables)
  have g: "focusableElements p = gs" using rp assms(8) by (simp add: ready_pro_focusables)
  have v6: "isOpen (step (Click x) w)" "activeElement (step (Click x) w) = activeElement w"
    "frames (step (Click x) w) = frames w @ [FocusFirstFocusable]"
    "fs \<noteq> [] \<Longrightarrow> can_focus (hd fs) (step (Click x) w) \<Longrightarrow>
       activeElement (step Frame (step (Click x) w)) = Some (hd fs)"
    "fs = [] \<Longrightarrow> activeElement (step Frame (step (Click x) w)) = activeElement w"
    if c: "\<not> isOpen w"
  proof -
    note o = open_click_v6[OF r c assms(3,4)]
    show 1: "isOpen (step (Click x) w)" "activeElement (step (Click x) w) = activeElement w"
      "frames (step (Click x) w) = frames w @ [FocusFirstFocusable]"
      unfolding o by (simp_all add: requestAnimationFrame_def setAttribute_def classList_add_def)
    note fr = frame_after_open_v6[OF r c assms(3,4)]
    show "activeElement (step Frame (step (Click x) w)) = Some (hd fs)"
      if "fs \<noteq> []" "can_focus (hd fs) (step (Click x) w)"
      using that by (simp add: fr f item_hd_last activeElement_focus del: step.simps)
    show "activeElement (step Frame (step (Click x) w)) = activeElement w" if "fs = []"
      using that 1(2) by (simp add: fr f item_def del: step.simps)
  qed
  have pro: "classList_contains (body p) ''mobile-nav-open'' (step (Click x) p)"
    "frames (step (Click x) p) = []"
    "can_focus (hd gs) (step (Click x) p) \<Longrightarrow> activeElement (step (Click x) p) = Some (hd gs)"
    if c: "\<not> classList_contains (body p) ''mobile-nav-open'' p" and ne: "gs \<noteq> []"
  proof -
    have ne': "focusableElements p \<noteq> []" using ne g by simp
    note op = open_click_pro[OF rp c assms(3) ne']
    show "classList_contains (body p) ''mobile-nav-open'' (step (Click x) p)"
      "frames (step (Click x) p) = []"
      using rp
      by (simp_all add: op setStyle_def setAttribute_def classList_add_def
          classList_contains_def ready_pro_def del: step.simps)
    show "activeElement (step (Click x) p) = Some (hd gs)"
      if "can_focus (hd gs) (step (Click x) p)"
      using that unfolding op g by (simp add: activeElement_focus)
  qed
  show ?thesis using v6 pro by blast
qed

theorem focus_after_open_witness:
  "querySelector ''.mobile-menu-toggle'' example_page = Some [1,0,0] \<and>
   querySelector ''#nav-links'' example_page = Some [1,0,1] \<and>
   contains [1,0,0] [1,0,0] \<and> \<not> contains [1,0,1] [1,0,0] \<and>
   \<not> isOpen (run [] (boot example_page)) \<and>
   \<not> classList_contains (body (run [] (boot_pro example_page))) ''mobile-nav-open''
        (run [] (boot_pro example_page)) \<and>
   querySelectorAll_in [1,0,1] focusable_selector example_page \<noteq> [] \<and>
   querySelectorAll_in [1,0,1] ''a[href], button'' example_page \<noteq> [] \<and>
   can_focus [1,0,1,0] (step (Click [1,0,0]) (run [] (boot example_page))) \<and>
   can_focus [1,0,1,0] (step (Click [1,0,0]) (run [] (boot_pro example_page))) \<and>
   activeElement (step (Click [1,0,0]) (run [] (boot example_page)))
     = activeElement (run [] (boot example_page)) \<and>
   activeElement (step Frame (step (Click [1,0,0]) (run [] (boot example_page)))) = Some [1,0,1,0] \<and>
   activeElement (step (Click [1,0,0]) (run [] (boot_pro example_page))) = Some [1,0,1,0]"
proof -
  have c: "contains [1,0,0] [1,0,0]" "\<not> contains [1,0,1] [1,0,0]"
    by (simp_all add: contains_def)
  have o: "\<not> isOpen (run [] (boot example_page))"
    using boot_ready(2)[OF example_page_found] by (simp add: run_def)
  have k: "\<not> classList_contains (body (run [] (boot_pro example_page))) ''mobile-nav-open''
        (run [] (boot_pro example_page))"
    by code_simp
  have g: "querySelectorAll_in [1,0,1] ''a[href], button'' example_page \<noteq> []"
    "hd (querySelectorAll_in [1,0,1] ''a[href], button'' example_page) = [1,0,1,0]"
    "querySelectorAll_in [1,0,1] focusable_selector example_page \<noteq> []"
    "hd (querySelectorAll_in [1,0,1] focusable_selector example_page) = [1,0,1,0]"
    using example_focusables by simp_all
  have f: "can_focus [1,0,1,0] (step (Click [1,0,0]) (run [] (boot example_page)))"
    "can_focus [1,0,1,0] (step (Click [1,0,0]) (run [] (boot_pro example_page)))"
    by code_simp+
  from focus_after_open[OF example_page_found c refl refl refl refl, of "[]" "[]"]
  show ?thesis using example_page_found c o k g f by auto
qed

text \<open>
  Claim C7 (versions 6.0 and 8.0). \<open>w\<close> and \<open>v\<close> are reachable states and the window
  is resized to an inner width \<open>k\<close> above 768. Version 6.0: if the panel is Open the
  resize event leaves exactly the state \<open>closeMenu\<close> produces, and in every case the
  panel is Closed after the event. Version 8.0 debounces the check: the panel is Closed
  once the timer of the debounced call has fired, with the effects of \<open>close\<close>.
\<close>

theorem resize_to_desktop_closes:
  assumes "querySelector ''.mobile-menu-toggle'' d = Some t"
    and "querySelector ''#nav-links'' d = Some n"
    and "w = run ins (boot d)" and "v = run ins' (boot_v8 d)" and "k > 768"
  shows
    "(isOpen w \<longrightarrow> step (Resize k) w = state_of (closeMenu (w\<lparr>innerWidth := k\<rparr>))) \<and>
     \<not> isOpen (step (Resize k) w) \<and>
     (isOpen v \<longrightarrow> step ResizeTimer (step (Resize k) v)
          = state_of (close_v8 (v\<lparr>innerWidth := k, pendingResize := False\<rparr>))) \<and>
     \<not> isOpen (step ResizeTimer (step (Resize k) v))"
proof -
  have r: "ready d t n w" using assms(1-3) by (simp add: reachable_ready)
  have r8: "ready_v8 d t n v" using assms(1,2,4) by (simp add: reachable_v8_ready)
  have rk: "ready d t n (w\<lparr>innerWidth := k\<rparr>)" using r by (rule ready_innerWidth)
  have r8': "ready_v8 d t n (step (Resize k) v)" using r8 by (rule step_v8_ready)
  have r8k: "ready_v8 d t n (v\<lparr>innerWidth := k, pendingResize := False\<rparr>)"
    using r8 by (simp add: ready_v8_def)
  have 1: "step (Resize k) w = state_of (closeMenu (w\<lparr>innerWidth := k\<rparr>))" if "isOpen w"
    using that assms(5) by (simp add: resize_step[OF r] del: step.simps)
  have 2: "\<not> isOpen (step (Resize k) w)"
    using assms(5) closeMenu_ready(3)[OF rk] by (simp add: resize_step[OF r] del: step.simps)
  have s: "step ResizeTimer (step (Resize k) v) =
      (if isOpen v then state_of (close_v8 (v\<lparr>innerWidth := k, pendingResize := False\<rparr>))
       else v\<lparr>innerWidth := k, pendingResize := False\<rparr>)"
    using assms(5) resize_timer_v8[OF r8'] by (simp add: resize_step_v8[OF r8] del: step.simps)
  have 4: "\<not> isOpen (step ResizeTimer (step (Resize k) v))"
    using close_v8_ready(3)[OF r8k] by (simp add: s del: step.simps)
  show ?thesis using 1 2 s 4 by simp
qed

theorem resize_to_desktop_closes_witness:
  "querySelector ''.mobile-menu-toggle'' example_page = Some [1,0,0] \<and>
   querySelector ''#nav-links'' example_page = Some [1,0,1] \<and>
   (1024 :: int) > 768 \<and>
   isOpen (run [Click [1,0,0]] (boot example_page)) \<and>
   step (Resize 1024) (run [Click [1,0,0]] (boot example_page))
     = state_of (closeMenu ((run [Click [1,0,0]] (boot example_page))\<lparr>innerWidth := 1024\<rparr>)) \<and>
   \<not> isOpen (step (Resize 1024) (run [Click [1,0,0]] (boot example_page))) \<and>
   isOpen (run [Click [1,0,0]] (boot_v8 example_page)) \<and>
   \<not> isOpen (step ResizeTimer (step (Resize 1024) (run [Click [1,0,0]] (boot_v8 example_page))))"
proof -
  have k: "(1024 :: int) > 768" by simp
  from resize_to_desktop_closes[OF example_page_found refl refl k, of "[Click [1,0,0]]"
      "[Click [1,0,0]]"]
  show ?thesis using example_page_found example_opened k by blast
qed

text \<open>
  Claim C8, as stated, fails on the loader of version 6.0: it parses the retrieved text
  and puts only the first element of it in place of the placeholder, so the second
  element of a two-element fragment never reaches the document; and when the text holds
  no element the placeholder stays and the text goes inside it.
\<close>

theorem loader_keeps_first_element_only:
  "document (state_of (fetchAndInject_v6 example_parse two_part_response ''header.html''
       ''header-placeholder'' empty_loader))
     = Element ''html'' []
         [Element ''head'' [] [],
          Element ''body'' [] [Element ''header'' [] [], Element ''main'' [] []]] \<and>
   document (state_of (fetchAndInject_v6 example_parse text_response ''header.html''
       ''header-placeholder'' empty_loader))
     = Element ''html'' []
         [Element ''head'' [] [],
          Element ''body'' []
            [Element ''div'' [(''id'', ''header-placeholder'')] [Text ''Menu''],
             Element ''main'' [] []]]"
  by code_simp

text \<open>
  Claim C8, amended (versions 5.1 and 6.0). Whatever the parser, the network, the URL,
  the id and the document are, \<open>fetchAndInject\<close> never throws, and when no element
  has the placeholder id (always so for the empty id) it leaves the document alone.
  Otherwise, with the placeholder at position \<open>q @ [k]\<close> under a parent at \<open>q\<close>, or
  at \<open>p\<close>: version 5.1 puts what the parser makes of a retrieved text for the parent
  between the earlier and the later siblings of the placeholder; version 6.0 puts there
  the first element of what the parser makes of the text for a new \<open>div\<close> and drops
  the rest, or, when that holds no element, keeps the placeholder and makes the text
  its content; and whenever the retrieval fails (the request is rejected, the response
  is not ok, or its body cannot be read) both keep the placeholder and make their
  fallback text its content, in version 5.1 with the URL inside the text. For version
  6.0 this is stated for a URL that is not in the cache yet, as at page load.
\<close>

theorem fragment_loader_outcomes:
  "returns (fetchAndInject_v5 parse fetch url i doc) \<and>
   returns (fetchAndInject_v6 parse fetch url i s) \<and>
   (getElementById i doc = None \<longrightarrow> fetchAndInject_v5 parse fetch url i doc = Returns doc) \<and>
   (getElementById i (document s) = None \<longrightarrow> fetchAndInject_v6 parse fetch url i s = Returns s) \<and>
   getElementById [] doc = None \<and>
   (getElementById i doc = Some (q @ [k]) \<and> node_at q doc = Some (Element t a cs) \<and>
    fetch url = Response True (Body html) \<longrightarrow>
      node_at q (state_of (fetchAndInject_v5 parse fetch url i doc))
        = Some (Element t a (take k cs @ parse (Element t a cs) html @ drop (Suc k) cs))) \<and>
   (getElementById i doc = Some p \<and> node_at p doc = Some (Element t' a' cs') \<and>
    retrieval_failed (fetch url) \<longrightarrow>
      node_at p (state_of (fetchAndInject_v5 parse fetch url i doc))
        = Some (Element t' a' (parse (Element t' a' cs') (fallback_markup_v5 url)))) \<and>
   (getElementById i (document s) = Some (q @ [k]) \<and>
    node_at q (document s) = Some (Element t a cs) \<and> cache s url = None \<and>
    fetch url = Response True (Body html) \<and>
    firstElementChild (parse (Element ''div'' [] []) html) = Some e \<longrightarrow>
      node_at q (document (state_of (fetchAndInject_v6 parse fetch url i s)))
        = Some (Element t a (take k cs @ [e] @ drop (Suc k) cs))) \<and>
   (getElementById i (document s) = Some p \<and>
    node_at p (document s) = Some (Element t' a' cs') \<and> cache s url = None \<and>
    fetch url = Response True (Body html) \<and>
    firstElementChild (parse (Element ''div'' [] []) html) = None \<longrightarrow>
      node_at p (document (state_of (fetchAndInject_v6 parse fetch url i s)))
        = Some (Element t' a' (parse (Element t' a' cs') html))) \<and>
   (getElementById i (document s) = Some p \<and>
    node_at p (document s) = Some (Element t' a' cs') \<and> cache s url = None \<and>
    retrieval_failed (fetch url) \<longrightarrow>
      node_at p (document (state_of (fetchAndInject_v6 parse fetch url i s)))
        = Some (Element t' a' (parse (Element t' a' cs') fallback_markup_v6)))"
proof -
  have 1: "returns (fetchAndInject_v5 parse fetch url i doc)"
    using returns_set_outerHTML_cases[of parse _ _ doc]
    by (auto simp add: fetchAndInject_v5_def
        split: option.splits fetch_result.splits body_result.splits outcome.splits)
  have 2: "returns (fetchAndInject_v6 parse fetch url i s)"
    by (auto simp add: fetchAndInject_v6_def split: option.splits sum.splits)
  have 3: "fetchAndInject_v5 parse fetch url i doc = Returns doc" if "getElementById i doc = None"
    using that by (simp add: fetchAndInject_v5_def)
  have 4: "fetchAndInject_v6 parse fetch url i s = Returns s"
    if "getElementById i (document s) = None"
    using that by (simp add: fetchAndInject_v6_def)
  have 0: "getElementById [] doc = None" by (simp add: getElementById_def)
  have 5: "node_at q (state_of (fetchAndInject_v5 parse fetch url i doc))
        = Some (Element t a (take k cs @ parse (Element t a cs) html @ drop (Suc k) cs))"
    if "getElementById i doc = Some (q @ [k])" "node_at q doc = Some (Element t a cs)"
      "fetch url = Response True (Body html)"
    using that set_outerHTML_child[OF that(2) getElementById_parent[OF that(1,2)], of parse html]
    by (auto simp add: fetchAndInject_v5_def)
  have 6: "node_at p (state_of (fetchAndInject_v5 parse fetch url i doc))
        = Some (Element t' a' (parse (Element t' a' cs') (fallback_markup_v5 url)))"
    if "getElementById i doc = Some p" "node_at p doc = Some (Element t' a' cs')"
      "retrieval_failed (fetch url)"
    using node_at_set_innerHTML[OF that(2)]
    by (simp add: fetchAndInject_v5_failed[of i doc p fetch url, OF that(1,3)])
  have 7: "node_at q (document (state_of (fetchAndInject_v6 parse fetch url i s)))
        = Some (Element t a (take k cs @ [e] @ drop (Suc k) cs))"
    if "getElementById i (document s) = Some (q @ [k])"
      "node_at q (document s) = Some (Element t a cs)" "cache s url = None"
      "fetch url = Response True (Body html)"
      "firstElementChild (parse (Element ''div'' [] []) html) = Some e"
    using that node_at_replace[OF that(2) getElementById_parent[OF that(1,2)], of "[e]"]
    by (simp add: fetchAndInject_v6_def retrieve_v6_def)
  have 8: "node_at p (document (state_of (fetchAndInject_v6 parse fetch url i s)))
        = Some (Element t' a' (parse (Element t' a' cs') html))"
    if "getElementById i (document s) = Some p"
      "node_at p (document s) = Some (Element t' a' cs')" "cache s url = None"
      "fetch url = Response True (Body html)"
      "firstElementChild (parse (Element ''div'' [] []) html) = None"
    using that node_at_set_innerHTML[OF that(2), of parse html]
    by (simp add: fetchAndInject_v6_def retrieve_v6_def)
  have 9: "node_at p (document (state_of (fetchAndInject_v6 parse fetch url i s)))
        = Some (Element t' a' (parse (Element t' a' cs') fallback_markup_v6))"
    if "getElementById i (document s) = Some p"
      "node_at p (document s) = Some (Element t' a' cs')" "cache s url = None"
      "retrieval_failed (fetch url)"
    using that(1) retrieve_v6_failed[of s url fetch, OF that(3,4)]
      node_at_set_innerHTML[OF that(2), of parse fallback_markup_v6]
    by (auto simp add: fetchAndInject_v6_def)
  show ?thesis using 0 1 2 3 4 5 6 7 8 9 by blast
qed

theorem fragment_loader_outcomes_witness:
  "getElementById ''header-placeholder'' placeholder_page = Some [1,0] \<and>
   getElementById ''footer-placeholder'' placeholder_page = None \<and>
   retrieval_failed (offline ''header.html'') \<and>
   fetchAndInject_v5 example_parse offline ''footer.html'' ''footer-placeholder'' placeholder_page
     = Returns placeholder_page \<and>
   node_at [1] (state_of (fetchAndInject_v5 example_parse two_part_response ''header.html''
        ''header-placeholder'' placeholder_page))
     = Some (Element ''body'' []
         [Element ''header'' [] [], Element ''nav'' [] [], Element ''main'' [] []]) \<and>
   node_at [1,0] (state_of (fetchAndInject_v5 example_parse offline ''header.html''
        ''header-placeholder'' placeholder_page))
     = Some (Element ''div'' [(''id'', ''header-placeholder'')]
         [Element ''p'' [(''style'', ''text-align:center; color:red;'')]
            [Text ''Failed to load component: header.html'']]) \<and>
   node_at [1] (document (state_of (fetchAndInject_v6 example_parse two_part_response
        ''header.html'' ''header-placeholder'' empty_loader)))
     = Some (Element ''body'' [] [Element ''header'' [] [], Element ''main'' [] []]) \<and>
   node_at [1,0] (document (state_of (fetchAndInject_v6 example_parse text_response
        ''header.html'' ''header-placeholder'' empty_loader)))
     = Some (Element ''div'' [(''id'', ''header-placeholder'')] [Text ''Menu'']) \<and>
   node_at [1,0] (document (state_of (fetchAndInject_v6 example_parse offline ''header.html''
        ''header-placeholder'' empty_loader)))
     = Some (Element ''div'' [(''id'', ''header-placeholder'')]
         [Text (indent 20),
          Element ''div'' [(''style'', ''text-align: center; padding: 2rem; color: #999;'')]
            [Text (indent 24), Element ''p'' [] [Text ''Content temporarily unavailable''],
             Text (indent 20)],
          Text (indent 16)])"
proof -
  note f = placeholder_page_facts
  note x = example_parse_facts
  have e: "document empty_loader = placeholder_page" "cache empty_loader ''header.html'' = None"
    by (simp_all add: empty_loader_def)
  have r: "two_part_response ''header.html'' = Response True (Body ''<header></header><nav></nav>'')"
    "text_response ''header.html'' = Response True (Body ''Menu'')"
    "retrieval_failed (offline ''header.html'')"
    "firstElementChild [Element ''header'' [] [], Element ''nav'' [] []] = Some (Element ''header'' [] [])"
    "firstElementChild [Text ''Menu''] = None"
    by (simp_all add: two_part_response_def text_response_def offline_def)
  note a = fragment_loader_outcomes[of example_parse offline "''footer.html''"
      "''footer-placeholder''" placeholder_page empty_loader]
  note b = fragment_loader_outcomes[of example_parse two_part_response "''header.html''"
      "''header-placeholder''" placeholder_page empty_loader "[1]" 0 "''body''" "[]"
      "[Element ''div'' [(''id'', ''header-placeholder'')] [], Element ''main'' [] []]"
      "''<header></header><nav></nav>''"
      "[1,0]" "''div''" "[(''id'', ''header-placeholder'')]" "[]" "Element ''header'' [] []"]
  note c = fragment_loader_outcomes[of example_parse text_response "''header.html''"
      "''header-placeholder''" placeholder_page empty_loader "[1]" 0 "''body''" "[]"
      "[Element ''div'' [(''id'', ''header-placeholder'')] [], Element ''main'' [] []]"
      "''Menu''"
      "[1,0]" "''div''" "[(''id'', ''header-placeholder'')]" "[]"]
  note d = fragment_loader_outcomes[of example_parse offline "''header.html''"
      "''header-placeholder''" placeholder_page empty_loader _ _ _ _ _ _
      "[1,0]" "''div''" "[(''id'', ''header-placeholder'')]" "[]"]
  show ?thesis
    using a b c d f e r x by simp
qed

text \<open>
  Claim C9 (\<open>createScrollReveal\<close> and the \<open>scrollAnimator\<close> of the Professional
  Edition). With the reduced-motion preference set, the call itself gives every target
  element its visible presentation: \<open>createScrollReveal\<close> sets the inline opacity to 1
  and the transform to none and touches no other style property and nothing else;
  \<open>scrollAnimator.init\<close> adds the class \<open>is-visible\<close> and touches nothing else, in
  particular no transition delay. Neither creates an intersection observer, and no
  timeout is started.
\<close>

theorem reduced_motion_reveals_at_once:
  assumes "prefersReducedMotion w"
  shows
    "(\<forall>el \<in> set (querySelectorAll reveal_selector w).
        styles (createScrollReveal w) el ''opacity'' = ''1'' \<and>
        styles (createScrollReveal w) el ''transform'' = ''none'') \<and>
     (createScrollReveal w)\<lparr>styles := styles w\<rparr> = w \<and>
     (\<forall>el prop. prop \<noteq> ''opacity'' \<and> prop \<noteq> ''transform'' \<longrightarrow>
        styles (createScrollReveal w) el prop = styles w el prop) \<and>
     observers (createScrollReveal w) = observers w \<and>
     timeouts (createScrollReveal w) = timeouts w \<and>
     (\<forall>el \<in> set (querySelectorAll ''.fade-in-up'' w).
        classList_contains el ''is-visible'' (scrollAnimator_init w)) \<and>
     (scrollAnimator_init w)\<lparr>classes := classes w\<rparr> = w \<and>
     observers (scrollAnimator_init w) = observers w \<and>
     styles (scrollAnimator_init w) = styles w"
  using assms
  by (simp add: createScrollReveal_def scrollAnimator_init_def foldl_reveal_styles
      foldl_visible_classes classList_contains_def querySelectorAll_def Let_def)

theorem reduced_motion_reveals_at_once_witness:
  "prefersReducedMotion reduced_motion_page \<and>
   styles (createScrollReveal reduced_motion_page) [1,1,2] ''opacity'' = ''1'' \<and>
   styles (createScrollReveal reduced_motion_page) [1,1,2] ''transform'' = ''none'' \<and>
   styles (createScrollReveal reduced_motion_page) [1,1,2] ''transitionDelay''
     = styles reduced_motion_page [1,1,2] ''transitionDelay'' \<and>
   observers (createScrollReveal reduced_motion_page) = observers reduced_motion_page \<and>
   classList_contains [1,1,3] ''is-visible'' (scrollAnimator_init reduced_motion_page) \<and>
   observers (scrollAnimator_init reduced_motion_page) = observers reduced_motion_page"
proof -
  have r: "prefersReducedMotion reduced_motion_page" by (simp add: reduced_motion_page_def)
  have m: "[1,1,2] \<in> set (querySelectorAll reveal_selector reduced_motion_page)"
    "[1,1,3] \<in> set (querySelectorAll ''.fade-in-up'' reduced_motion_page)"
    by (simp_all add: reduced_motion_page_def querySelectorAll_def reveal_selector_def)
  have n: "''transitionDelay'' \<noteq> ''opacity'' \<and> ''transitionDelay'' \<noteq> ''transform''" by simp
  from reduced_motion_reveals_at_once[OF r] show ?thesis using r m n by simp
qed



end
